theory Spec2Isabelle
  imports Main "HOL-Library.AList"
begin

section \<open>Python values and string helpers\<close>

text \<open>
  Agent names, windows and command-line tokens reach the cluster either as strings or as
  numbers; the source converts them with \<open>str(...)\<close> and tests them with Python
  truthiness.
\<close>

datatype pyval = PyStr string | PyInt int

function str_nat :: "nat \<Rightarrow> string" where
  "str_nat n =
     (if n < 10 then [''0123456789'' ! n]
      else str_nat (n div 10) @ [''0123456789'' ! (n mod 10)])"
  by pat_completeness auto
termination
  by (relation "measure id") auto

declare str_nat.simps [simp del]

definition str_int :: "int \<Rightarrow> string" where
  "str_int i = (if i < 0 then ''-'' @ str_nat (nat (- i)) else str_nat (nat i))"

fun str :: "pyval \<Rightarrow> string" where
  "str (PyStr s) = s"
| "str (PyInt i) = str_int i"

fun truthy :: "pyval \<Rightarrow> bool" where
  "truthy (PyStr s) = (s \<noteq> [])"
| "truthy (PyInt i) = (i \<noteq> 0)"

fun py_join :: "string \<Rightarrow> string list \<Rightarrow> string" where
  "py_join sep [] = []"
| "py_join sep [x] = x"
| "py_join sep (x # y # ys) = x @ sep @ py_join sep (y # ys)"

definition startswith :: "string \<Rightarrow> string \<Rightarrow> bool" where
  "startswith s p = (take (length p) s = p)"

definition endswith :: "string \<Rightarrow> string \<Rightarrow> bool" where
  "endswith s p = (length p \<le> length s \<and> drop (length s - length p) s = p)"

text \<open>
  \<open>shlex.quote\<close> of the standard library: the empty string becomes two quotes, a string
  of safe characters (\<open>[A-Za-z0-9_@%+=:,./-]\<close>) is returned as it is, anything else is
  wrapped in single quotes with every single quote replaced by \<open>'"'"'\<close>.
\<close>

definition safe_char :: "char \<Rightarrow> bool" where
  "safe_char c =
     (let n = (of_char c :: nat) in
      (48 \<le> n \<and> n \<le> 57) \<or> (65 \<le> n \<and> n \<le> 90) \<or> (97 \<le> n \<and> n \<le> 122)
      \<or> c \<in> set ''_@%+=:,./-'')"

definition shlex_quote :: "string \<Rightarrow> string" where
  "shlex_quote s =
     (if s = [] then [CHR 0x27, CHR 0x27]
      else if list_all safe_char s then s
      else [CHR 0x27]
           @ concat (map (\<lambda>c. if c = CHR 0x27
                              then [CHR 0x27, CHR 0x22, CHR 0x27, CHR 0x22, CHR 0x27]
                              else [c]) s)
           @ [CHR 0x27])"

section \<open>Errors\<close>

text \<open>
  Every \<open>raise\<close> and every \<open>assert\<close> of \<open>tmux_cluster.py\<close> is one constructor:
  \<^item> \<open>MalformedScriptReference\<close>: \<open>ValueError('Ill-formed python script ...')\<close>;
  \<^item> \<open>DuplicateAgentName\<close>: \<open>assert len(agent_names) == len(set(agent_names))\<close>;
  \<^item> \<open>ArityMismatch\<close>: \<open>assert len(agent_names) == len(agent_args_)\<close>;
  \<^item> \<open>BadArgSpec\<close>: \<open>ValueError('Must be a list of command line arg list ...')\<close>;
  \<^item> \<open>InvalidGroup\<close>: \<open>assert group in ['agent', 'learner', 'infras']\<close>;
  \<^item> \<open>DuplicateRunningAgent\<close>: \<open>assert not (set(running) & set(agent_names))\<close>;
  \<^item> \<open>FleetNotLaunched\<close>: \<open>assert self.is_launched('agent')\<close>;
  \<^item> \<open>InvalidArgument\<close>: \<open>assert window is None\<close> in \<open>get_stdout\<close>.
\<close>

datatype error =
    MalformedScriptReference
  | DuplicateAgentName
  | ArityMismatch
  | BadArgSpec
  | InvalidGroup
  | DuplicateRunningAgent
  | FleetNotLaunched
  | InvalidArgument

section \<open>The multiplexer backend\<close>

text \<open>
  One entry for each call the cluster makes on its \<open>TmuxRunner\<close>, in the order the calls
  are made.
\<close>

datatype call =
    ListSessionNames
  | ListWindowNames string
  | Run string string string
  | Kill string "string option"
  | GetStdout string string int
  | CheckError string string int

text \<open>
  The backend state: the sessions in listing order, each with its windows (name and
  command) in listing order; the text of every pane and the error found in it, which the
  running processes decide and the cluster only reads; and the trace of calls received.
\<close>

record backend =
  sessions :: "(string \<times> (string \<times> string) list) list"
  pane_lines :: "string \<Rightarrow> string \<Rightarrow> int \<Rightarrow> string list"
  pane_error :: "string \<Rightarrow> string \<Rightarrow> int \<Rightarrow> string option"
  calls :: "call list"

definition windows_of :: "backend \<Rightarrow> string \<Rightarrow> (string \<times> string) list" where
  "windows_of b s = (case map_of (sessions b) s of None \<Rightarrow> [] | Some ws \<Rightarrow> ws)"

definition window_names :: "backend \<Rightarrow> string \<Rightarrow> string list" where
  "window_names b s = map fst (windows_of b s)"

definition session_names :: "backend \<Rightarrow> string list" where
  "session_names b = map fst (sessions b)"

text \<open>
  Modelled from the spec: \<open>TmuxRunner.list_session_names\<close> (\<open>tmux_runner.py\<close> is not
  among the sources). Section 6: \<open>listSessionNames() -> set<string>\<close>, a read of the live
  session listing.
\<close>

definition list_session_names :: "backend \<Rightarrow> backend \<times> string list" where
  "list_session_names b = (b\<lparr>calls := calls b @ [ListSessionNames]\<rparr>, session_names b)"

text \<open>
  Modelled from the spec: \<open>TmuxRunner.list_window_names\<close>. Section 6:
  \<open>listWindowNames(session) -> ordered sequence<string>\<close>; a session that does not exist
  has no window (\<open>launch\<close> lists the agent session while it is absent).
\<close>

definition list_window_names :: "backend \<Rightarrow> string \<Rightarrow> backend \<times> string list" where
  "list_window_names b s = (b\<lparr>calls := calls b @ [ListWindowNames s]\<rparr>, window_names b s)"

text \<open>
  Modelled from the spec: \<open>TmuxRunner.run\<close>. Section 6:
  \<open>createWindow(session, window, command)\<close>; a session comes to exist with its first
  window (section 4.3: running means the session exists with at least one window). A
  window name is unique within its session: creating a name that is already there
  overwrites that window's command (section 3, "silently overwriting a running agent";
  section 5, "last-create-wins"). Backend-communication failures are not modelled.
\<close>

definition tmux_run :: "backend \<Rightarrow> string \<Rightarrow> string \<Rightarrow> string \<Rightarrow> backend" where
  "tmux_run b s w c =
     b\<lparr>sessions := AList.update s (AList.update w c (windows_of b s)) (sessions b),
       calls := calls b @ [Run s w c]\<rparr>"

text \<open>
  Modelled from the spec: \<open>TmuxRunner.kill\<close>. Section 6: \<open>killWindow(session, window)\<close>
  and \<open>killSession(session)\<close>, both a no-op when the target is absent. A session whose
  last window is killed is absent again (section 4.3: there is no present state without
  a window).
\<close>

definition tmux_kill :: "backend \<Rightarrow> string \<Rightarrow> string option \<Rightarrow> backend" where
  "tmux_kill b s window_name =
     b\<lparr>sessions :=
         (case window_name of
            None \<Rightarrow> AList.delete s (sessions b)
          | Some w \<Rightarrow>
              if w \<in> set (window_names b s)
              then (let ws = AList.delete w (windows_of b s)
                    in if ws = [] then AList.delete s (sessions b)
                       else AList.update s ws (sessions b))
              else sessions b),
       calls := calls b @ [Kill s window_name]\<rparr>"

text \<open>
  Modelled from the spec: \<open>TmuxRunner.get_stdout\<close>. Section 6:
  \<open>capturePane(session, window, historyLines) -> ordered sequence<string>\<close>.
\<close>

definition tmux_get_stdout :: "backend \<Rightarrow> string \<Rightarrow> string \<Rightarrow> int \<Rightarrow> backend \<times> string list" where
  "tmux_get_stdout b s w history =
     (b\<lparr>calls := calls b @ [GetStdout s w history]\<rparr>, pane_lines b s w history)"

text \<open>
  Modelled from the spec: \<open>TmuxRunner.check_error\<close>. Section 6:
  \<open>findErrorInPane(session, window, historyLines) -> string | none\<close>.
\<close>

definition tmux_check_error :: "backend \<Rightarrow> string \<Rightarrow> string \<Rightarrow> int \<Rightarrow> backend \<times> string option" where
  "tmux_check_error b s w history =
     (b\<lparr>calls := calls b @ [CheckError s w history]\<rparr>, pane_error b s w history)"

section \<open>The cluster\<close>

text \<open>
  \<open>self.config\<close>, with the fields the cluster reads. \<open>Config\<close> and
  \<open>BASE_SESSION_CONFIG\<close> are not among the sources, so the merged configuration and its
  \<open>json.dumps\<close> are taken as given.
\<close>

record config =
  replay_name :: string
  replay_port :: int
  ps_name :: string
  ps_port :: int
  tensorplex_port :: int
  tensorplex_folder :: string
  tensorplex_tb_port :: int
  json_dumps :: string

record cluster =
  config :: config
  agent_cmd :: string
  learner_cmd :: string
  evaluator_cmd :: "string option"
  infras_session :: string
  agent_session :: string
  learner_session :: string

definition LOGGERPLEX_SCRIPT :: string where
  "LOGGERPLEX_SCRIPT = ''surreal.session.run_loggerplex_server''"

definition TENSORPLEX_SCRIPT :: string where
  "TENSORPLEX_SCRIPT = ''surreal.session.run_tensorplex_server''"

definition get_python_cmd :: "string \<Rightarrow> error + string" where
  "get_python_cmd python_script =
     (if startswith python_script ''python'' then Inr python_script
      else if \<not> endswith python_script ''.py'' \<and> CHR ''/'' \<in> set python_script
      then Inl MalformedScriptReference
      else if endswith python_script ''.py'' then Inr (''python -u '' @ python_script)
      else Inr (''python -u -m '' @ python_script))"

text \<open>
  \<open>__init__\<close>: the three commands are built from the script references (the evaluator's
  only when one is given), the three session names from the cluster name.
\<close>

definition make_cluster ::
  "string \<Rightarrow> config \<Rightarrow> string \<Rightarrow> string \<Rightarrow> string option \<Rightarrow> cluster" where
  "make_cluster cluster_name cfg a_cmd l_cmd e_cmd =
     \<lparr>config = cfg, agent_cmd = a_cmd, learner_cmd = l_cmd, evaluator_cmd = e_cmd,
      infras_session = ''infras-'' @ cluster_name,
      agent_session = ''agent-'' @ cluster_name,
      learner_session = ''learner-'' @ cluster_name\<rparr>"

definition init ::
  "string \<Rightarrow> config \<Rightarrow> string \<Rightarrow> string \<Rightarrow> string option \<Rightarrow> error + cluster" where
  "init cluster_name session_config agent_script learner_script evaluator_script =
     (case get_python_cmd agent_script of
        Inl e \<Rightarrow> Inl e
      | Inr a_cmd \<Rightarrow>
          (case get_python_cmd learner_script of
             Inl e \<Rightarrow> Inl e
           | Inr l_cmd \<Rightarrow>
               (case evaluator_script of
                  None \<Rightarrow> Inr (make_cluster cluster_name session_config a_cmd l_cmd None)
                | Some es \<Rightarrow>
                    (case get_python_cmd es of
                       Inl e \<Rightarrow> Inl e
                     | Inr e_cmd \<Rightarrow>
                         Inr (make_cluster cluster_name session_config a_cmd l_cmd
                                (Some e_cmd))))))"

text \<open>
  One command-line specification of an agent: \<open>None\<close>, a command string, a list of
  tokens, or a value of any other type (which \<open>_get_agent_info\<close> rejects).
\<close>

datatype argspec = ArgNone | ArgStr string | ArgList "pyval list" | ArgOther

fun agent_arg :: "argspec \<Rightarrow> error + string" where
  "agent_arg ArgNone = Inr []"
| "agent_arg (ArgStr s) = Inr s"
| "agent_arg (ArgList xs) = Inr (py_join '' '' (map str xs))"
| "agent_arg ArgOther = Inl BadArgSpec"

fun agent_args_loop :: "argspec list \<Rightarrow> error + string list" where
  "agent_args_loop [] = Inr []"
| "agent_args_loop (a # as) =
     (case agent_arg a of
        Inl e \<Rightarrow> Inl e
      | Inr cmd \<Rightarrow>
          (case agent_args_loop as of Inl e \<Rightarrow> Inl e | Inr cmds \<Rightarrow> Inr (cmd # cmds)))"

definition get_agent_info ::
  "pyval list \<Rightarrow> argspec list \<Rightarrow> error + (string list \<times> string list)" where
  "get_agent_info agent_names agent_args_in =
     (let names = map str agent_names in
      if length names \<noteq> length (remdups names) then Inl DuplicateAgentName
      else if length names \<noteq> length agent_args_in then Inl ArityMismatch
      else (case agent_args_loop agent_args_in of
              Inl e \<Rightarrow> Inl e
            | Inr agent_args \<Rightarrow> Inr (names, agent_args)))"

definition session_group :: "cluster \<Rightarrow> string \<Rightarrow> error + string" where
  "session_group cl group_tag =
     (if group_tag \<notin> set [''agent'', ''learner'', ''infras''] then Inl InvalidGroup
      else if group_tag = ''agent'' then Inr (agent_session cl)
      else if group_tag = ''learner'' then Inr (learner_session cl)
      else Inr (infras_session cl))"

definition is_launched :: "cluster \<Rightarrow> string \<Rightarrow> backend \<Rightarrow> backend \<times> (error + bool)" where
  "is_launched cl group_tag b =
     (case session_group cl group_tag of
        Inl e \<Rightarrow> (b, Inl e)
      | Inr s \<Rightarrow> (let (b', names) = list_session_names b in (b', Inr (s \<in> set names))))"

definition get_running_agents :: "cluster \<Rightarrow> backend \<Rightarrow> backend \<times> string list" where
  "get_running_agents cl b = list_window_names b (agent_session cl)"

definition get_tensorplex_cmd :: "cluster \<Rightarrow> string \<Rightarrow> error + string" where
  "get_tensorplex_cmd cl script =
     (case get_python_cmd script of
        Inl e \<Rightarrow> Inl e
      | Inr cmd \<Rightarrow> Inr (cmd @ '' '' @ shlex_quote (json_dumps (config cl))))"

text \<open>
  The body of \<open>if not self.is_launched('infras')\<close> in \<open>launch\<close>: the three redis
  windows of the \<open>for\<close> loop, then loggerplex, tensorplex and tensorboard.
\<close>

definition redis_cmd :: "int \<Rightarrow> string" where
  "redis_cmd port = ''redis-server --port '' @ str_int port @ '' --protected-mode no''"

definition tensorboard_cmd :: "cluster \<Rightarrow> string" where
  "tensorboard_cmd cl =
     ''tensorboard --logdir '' @ tensorplex_folder (config cl)
       @ '' --port '' @ str_int (tensorplex_tb_port (config cl))"

definition launch_infras :: "cluster \<Rightarrow> backend \<Rightarrow> backend \<times> (error + unit)" where
  "launch_infras cl b =
     (let b1 = foldl (\<lambda>b (window_name, port).
                        tmux_run b (infras_session cl) (''redis-'' @ window_name)
                          (redis_cmd port))
                 b [(replay_name (config cl), replay_port (config cl)),
                    (ps_name (config cl), ps_port (config cl)),
                    (''plex'', tensorplex_port (config cl))]
      in case get_tensorplex_cmd cl LOGGERPLEX_SCRIPT of
           Inl e \<Rightarrow> (b1, Inl e)
         | Inr lcmd \<Rightarrow>
             (let b2 = tmux_run b1 (infras_session cl) ''loggerplex'' lcmd
              in case get_tensorplex_cmd cl TENSORPLEX_SCRIPT of
                   Inl e \<Rightarrow> (b2, Inl e)
                 | Inr tcmd \<Rightarrow>
                     (let b3 = tmux_run b2 (infras_session cl) ''tensorplex'' tcmd
                      in (tmux_run b3 (infras_session cl) ''tensorboard''
                            (tensorboard_cmd cl), Inr ()))))"

text \<open>The body of \<open>if not self.is_launched('learner')\<close> in \<open>launch\<close>.\<close>

definition launch_learner :: "cluster \<Rightarrow> backend \<Rightarrow> backend" where
  "launch_learner cl b =
     (let b1 = tmux_run b (learner_session cl) ''learner'' (learner_cmd cl)
      in case evaluator_cmd cl of
           None \<Rightarrow> b1
         | Some ecmd \<Rightarrow> tmux_run b1 (learner_session cl) ''evaluator'' ecmd)"

text \<open>The \<open>for\<close> loop of \<open>add_agents\<close> over \<open>zip(agent_names, agent_args)\<close>.\<close>

definition run_agents :: "cluster \<Rightarrow> backend \<Rightarrow> (string \<times> string) list \<Rightarrow> backend" where
  "run_agents cl b xs =
     foldl (\<lambda>b (agent_name, a).
              tmux_run b (agent_session cl) agent_name (agent_cmd cl @ '' '' @ a))
       b xs"

definition add_agents ::
  "cluster \<Rightarrow> pyval list \<Rightarrow> argspec list \<Rightarrow> backend \<Rightarrow> backend \<times> (error + unit)" where
  "add_agents cl agent_names agent_args b =
     (case get_agent_info agent_names agent_args of
        Inl e \<Rightarrow> (b, Inl e)
      | Inr (names, args) \<Rightarrow>
          (let (b1, running) = get_running_agents cl b
           in if set running \<inter> set names \<noteq> {} then (b1, Inl DuplicateRunningAgent)
              else (run_agents cl b1 (zip names args), Inr ())))"

definition launch ::
  "cluster \<Rightarrow> pyval list \<Rightarrow> argspec list \<Rightarrow> backend \<Rightarrow> backend \<times> (error + unit)" where
  "launch cl agent_names agent_args b =
     (case is_launched cl ''infras'' b of
        (b1, Inl e) \<Rightarrow> (b1, Inl e)
      | (b1, Inr infras_up) \<Rightarrow>
          (case (if \<not> infras_up then launch_infras cl b1 else (b1, Inr ())) of
             (b2, Inl e) \<Rightarrow> (b2, Inl e)
           | (b2, Inr _) \<Rightarrow>
               (case is_launched cl ''learner'' b2 of
                  (b3, Inl e) \<Rightarrow> (b3, Inl e)
                | (b3, Inr learner_up) \<Rightarrow>
                    (let b4 = (if \<not> learner_up then launch_learner cl b3 else b3)
                     in case is_launched cl ''agent'' b4 of
                          (b5, Inl e) \<Rightarrow> (b5, Inl e)
                        | (b5, Inr agent_up) \<Rightarrow>
                            if \<not> agent_up then add_agents cl agent_names agent_args b5
                            else (b5, Inr ())))))"

definition kill_agents :: "cluster \<Rightarrow> pyval list \<Rightarrow> backend \<Rightarrow> backend \<times> (error + unit)" where
  "kill_agents cl agent_names b =
     (case is_launched cl ''agent'' b of
        (b1, Inl e) \<Rightarrow> (b1, Inl e)
      | (b1, Inr up) \<Rightarrow>
          if \<not> up then (b1, Inl FleetNotLaunched)
          else (foldl (\<lambda>b name. tmux_kill b (agent_session cl) (Some (str name)))
                  b1 agent_names, Inr ()))"

definition killall :: "cluster \<Rightarrow> backend \<Rightarrow> backend" where
  "killall cl b =
     tmux_kill (tmux_kill (tmux_kill b (agent_session cl) None) (learner_session cl) None)
       (infras_session cl) None"

section \<open>Inspection\<close>

text \<open>
  An \<open>OrderedDict\<close> is an association list in insertion order; assigning to a key that
  is present replaces its value where it stands, which is \<open>AList.update\<close>.
\<close>

type_synonym ordered_dict = "(string \<times> string) list"

definition slot_key :: "string \<Rightarrow> string \<Rightarrow> string" where
  "slot_key sess win = sess @ '':'' @ win"

text \<open>
  \<open>_iterate_all_windows\<close> is a generator: the windows of a session are listed when the
  loop reaches that session, after the body has run on every window of the session
  before it. The loops below take the body of the consuming \<open>for\<close> loop.
\<close>

definition iterate_sessions :: "cluster \<Rightarrow> string list" where
  "iterate_sessions cl = [agent_session cl, learner_session cl, infras_session cl]"

definition iterate_windows ::
  "(string \<Rightarrow> string \<Rightarrow> backend \<times> 'a \<Rightarrow> backend \<times> 'a) \<Rightarrow> string \<Rightarrow> backend \<times> 'a
     \<Rightarrow> backend \<times> 'a" where
  "iterate_windows body sess st =
     (case st of (b, acc) \<Rightarrow>
        (let (b1, wins) = list_window_names b sess
         in foldl (\<lambda>st win. body sess win st) (b1, acc) wins))"

definition iterate_all_windows ::
  "cluster \<Rightarrow> (string \<Rightarrow> string \<Rightarrow> backend \<times> 'a \<Rightarrow> backend \<times> 'a) \<Rightarrow> backend \<times> 'a
     \<Rightarrow> backend \<times> 'a" where
  "iterate_all_windows cl body st =
     foldl (\<lambda>st sess. iterate_windows body sess st) st (iterate_sessions cl)"

definition get_stdout_body ::
  "string option \<Rightarrow> pyval option \<Rightarrow> int \<Rightarrow> string \<Rightarrow> string
     \<Rightarrow> backend \<times> ordered_dict \<Rightarrow> backend \<times> ordered_dict" where
  "get_stdout_body group_sess window history sess win st =
     (case st of (b, outdict) \<Rightarrow>
        if (case group_sess of None \<Rightarrow> False | Some g \<Rightarrow> g \<noteq> [] \<and> g \<noteq> sess) then (b, outdict)
        else if (case window of None \<Rightarrow> False | Some w \<Rightarrow> truthy w \<and> w \<noteq> PyStr win)
        then (b, outdict)
        else (let (b1, stdout) = tmux_get_stdout b sess win history
              in (b1, AList.update (slot_key sess win) (py_join [CHR 0x0A] stdout) outdict)))"

definition get_stdout ::
  "cluster \<Rightarrow> string option \<Rightarrow> pyval option \<Rightarrow> int \<Rightarrow> backend
     \<Rightarrow> backend \<times> (error + ordered_dict)" where
  "get_stdout cl group_tag window history b =
     (case (case group_tag of
              None \<Rightarrow> if window \<noteq> None then Inl InvalidArgument else Inr None
            | Some g \<Rightarrow> (case session_group cl g of Inl e \<Rightarrow> Inl e | Inr s \<Rightarrow> Inr (Some s))) of
        Inl e \<Rightarrow> (b, Inl e)
      | Inr group1 \<Rightarrow>
          (let window1 = (case window of
                            None \<Rightarrow> None
                          | Some w \<Rightarrow> if truthy w then Some (PyStr (str w)) else Some w)
           in case iterate_all_windows cl (get_stdout_body group1 window1 history) (b, []) of
                (b1, outdict) \<Rightarrow> (b1, Inr outdict)))"

definition check_error_body ::
  "string \<Rightarrow> string \<Rightarrow> backend \<times> ordered_dict \<Rightarrow> backend \<times> ordered_dict" where
  "check_error_body sess win st =
     (case st of (b, outdict) \<Rightarrow>
        (let (b1, err) = tmux_check_error b sess win 100
         in case err of
              None \<Rightarrow> (b1, outdict)
            | Some e \<Rightarrow> if e \<noteq> [] then (b1, AList.update (slot_key sess win) e outdict)
                        else (b1, outdict)))"

definition check_error :: "cluster \<Rightarrow> backend \<Rightarrow> backend \<times> ordered_dict" where
  "check_error cl b = iterate_all_windows cl check_error_body (b, [])"

section \<open>Reading the trace\<close>

text \<open>A call that creates a window in session \<open>s\<close>; a call that creates a window.\<close>

definition is_run_on :: "string \<Rightarrow> call \<Rightarrow> bool" where
  "is_run_on s c = (case c of Run s' w cmd \<Rightarrow> s' = s | _ \<Rightarrow> False)"

definition is_run :: "call \<Rightarrow> bool" where
  "is_run c = (case c of Run s w cmd \<Rightarrow> True | _ \<Rightarrow> False)"

section \<open>Reading the inspection results\<close>

text \<open>
  A slot passes the two \<open>continue\<close> tests of \<open>get_stdout\<close>; the slots of the three
  sessions in iteration order; the ordered dictionary a sequence of assignments builds;
  the error text that \<open>if err:\<close> lets through.
\<close>

definition selected :: "string option \<Rightarrow> pyval option \<Rightarrow> string \<Rightarrow> string \<Rightarrow> bool" where
  "selected group_sess window sess win =
     (\<not> (case group_sess of None \<Rightarrow> False | Some g \<Rightarrow> g \<noteq> [] \<and> g \<noteq> sess)
      \<and> \<not> (case window of None \<Rightarrow> False | Some w \<Rightarrow> truthy w \<and> w \<noteq> PyStr win))"

definition all_windows :: "cluster \<Rightarrow> backend \<Rightarrow> (string \<times> string) list" where
  "all_windows cl b =
     concat (map (\<lambda>sess. map (Pair sess) (window_names b sess)) (iterate_sessions cl))"

definition od_of_list :: "(string \<times> string) list \<Rightarrow> ordered_dict" where
  "od_of_list kvs = foldl (\<lambda>od (k, v). AList.update k v od) [] kvs"

definition error_text :: "string option \<Rightarrow> string list" where
  "error_text err = (case err of None \<Rightarrow> [] | Some e \<Rightarrow> if e \<noteq> [] then [e] else [])"

section \<open>The error check as the spec words it\<close>

text \<open>
  \<open>check_error(group=None, window=None)\<close> as section 4.3 of the spec words it, for
  comparison with \<open>check_error\<close> of the source: the same slots, restricted to the
  requested group and window when given, keeping the entries with an error.
\<close>

definition check_error_spec ::
  "cluster \<Rightarrow> string option \<Rightarrow> string option \<Rightarrow> backend \<Rightarrow> ordered_dict" where
  "check_error_spec cl group_tag window b =
     od_of_list
       (concat (map (\<lambda>(sess, win). map (Pair (slot_key sess win))
                       (error_text (pane_error b sess win 100)))
          (filter (\<lambda>(sess, win).
                     (case group_tag of None \<Rightarrow> True | Some g \<Rightarrow> session_group cl g = Inr sess)
                     \<and> (case window of None \<Rightarrow> True | Some w \<Rightarrow> w = win))
             (all_windows cl b))))"

section \<open>A concrete cluster and backend\<close>

definition exp1_config :: config where
  "exp1_config =
     \<lparr>replay_name = ''replay'', replay_port = 6379, ps_name = ''ps'', ps_port = 6380,
      tensorplex_port = 6381, tensorplex_folder = ''/tmp/exp1'', tensorplex_tb_port = 6006,
      json_dumps = ''{}''\<rparr>"

definition exp1 :: cluster where
  "exp1 = make_cluster ''exp1'' exp1_config ''python -u -m agent_main''
            ''python -u -m learner_main'' None"

definition empty_backend :: backend where
  "empty_backend =
     \<lparr>sessions = [], pane_lines = (\<lambda>s w h. []), pane_error = (\<lambda>s w h. None), calls = []\<rparr>"

text \<open>
  A backend after a partial bring-up: the infras and agent sessions exist, the learner
  session does not.
\<close>

definition partial_backend :: backend where
  "partial_backend =
     \<lparr>sessions =
        [(''infras-exp1'', [(''redis-replay'', ''redis-server --port 6379 --protected-mode no'')]),
         (''agent-exp1'', [(''agent0'', ''python -u -m agent_main --id 0'')])],
      pane_lines = (\<lambda>s w h. []), pane_error = (\<lambda>s w h. None), calls = []\<rparr>"

text \<open>
  A backend on which every pane shows an error: one agent and the learner, both crashed.
\<close>

definition crashed_backend :: backend where
  "crashed_backend =
     \<lparr>sessions = [(''agent-exp1'', [(''agent0'', ''python -u -m agent_main --id 0'')]),
                  (''learner-exp1'', [(''learner'', ''python -u -m learner_main'')])],
      pane_lines = (\<lambda>s w h. [''Traceback'']), pane_error = (\<lambda>s w h. Some ''Traceback''),
      calls = []\<rparr>"

text \<open>
  A backend that lists the infras session first and the agent session last, with an
  error on the panes of \<open>agent0\<close> and \<open>learner\<close>.
\<close>

definition mixed_backend :: backend where
  "mixed_backend =
     \<lparr>sessions =
        [(''infras-exp1'', [(''redis-replay'', ''redis-server --port 6379 --protected-mode no''),
                            (''tensorboard'', ''tensorboard --logdir /tmp/exp1 --port 6006'')]),
         (''learner-exp1'', [(''learner'', ''python -u -m learner_main''),
                             (''evaluator'', ''python -u -m evaluator_main'')]),
         (''agent-exp1'', [(''agent1'', ''python -u -m agent_main --id 1''),
                           (''agent0'', ''python -u -m agent_main --id 0'')])],
      pane_lines = (\<lambda>s w h. []),
      pane_error = (\<lambda>s w h. if w = ''agent0'' \<or> w = ''learner'' then Some ''Traceback''
                               else None),
      calls = []\<rparr>"

section \<open>Evaluating the model on concrete inputs\<close>

text \<open>
  The backend operations on a state written out field by field: the simplifier then
  evaluates a sequence of operations state by state.
\<close>

lemma tmux_run_lit:
  "tmux_run \<lparr>sessions = S, pane_lines = P, pane_error = E, calls = C\<rparr> s w c =
     \<lparr>sessions = AList.update s
                   (AList.update w c (case map_of S s of None \<Rightarrow> [] | Some ws \<Rightarrow> ws)) S,
      pane_lines = P, pane_error = E, calls = C @ [Run s w c]\<rparr>"
  by (simp add: tmux_run_def windows_of_def)

lemma list_session_names_lit:
  "list_session_names \<lparr>sessions = S, pane_lines = P, pane_error = E, calls = C\<rparr> =
     (\<lparr>sessions = S, pane_lines = P, pane_error = E, calls = C @ [ListSessionNames]\<rparr>,
      map fst S)"
  by (simp add: list_session_names_def session_names_def)

lemma list_window_names_lit:
  "list_window_names \<lparr>sessions = S, pane_lines = P, pane_error = E, calls = C\<rparr> s =
     (\<lparr>sessions = S, pane_lines = P, pane_error = E, calls = C @ [ListWindowNames s]\<rparr>,
      map fst (case map_of S s of None \<Rightarrow> [] | Some ws \<Rightarrow> ws))"
  by (simp add: list_window_names_def window_names_def windows_of_def)

lemma tmux_kill_lit:
  "tmux_kill \<lparr>sessions = S, pane_lines = P, pane_error = E, calls = C\<rparr> s wo =
     \<lparr>sessions =
         (case wo of
            None \<Rightarrow> AList.delete s S
          | Some w \<Rightarrow>
              if w \<in> set (map fst (case map_of S s of None \<Rightarrow> [] | Some ws \<Rightarrow> ws))
              then (let ws = AList.delete w (case map_of S s of None \<Rightarrow> [] | Some ws \<Rightarrow> ws)
                    in if ws = [] then AList.delete s S else AList.update s ws S)
              else S),
      pane_lines = P, pane_error = E, calls = C @ [Kill s wo]\<rparr>"
  by (cases wo) (simp_all add: tmux_kill_def window_names_def windows_of_def Let_def)

lemma tmux_get_stdout_lit:
  "tmux_get_stdout \<lparr>sessions = S, pane_lines = P, pane_error = E, calls = C\<rparr> s w h =
     (\<lparr>sessions = S, pane_lines = P, pane_error = E, calls = C @ [GetStdout s w h]\<rparr>,
      P s w h)"
  by (simp add: tmux_get_stdout_def)

lemma tmux_check_error_lit:
  "tmux_check_error \<lparr>sessions = S, pane_lines = P, pane_error = E, calls = C\<rparr> s w h =
     (\<lparr>sessions = S, pane_lines = P, pane_error = E, calls = C @ [CheckError s w h]\<rparr>,
      E s w h)"
  by (simp add: tmux_check_error_def)

lemmas eval_lits =
  launch_def is_launched_def session_group_def list_session_names_lit
  launch_infras_def get_tensorplex_cmd_def LOGGERPLEX_SCRIPT_def TENSORPLEX_SCRIPT_def
  get_python_cmd_def startswith_def endswith_def shlex_quote_def safe_char_def tmux_run_lit
  launch_learner_def add_agents_def get_agent_info_def get_running_agents_def
  list_window_names_lit run_agents_def exp1_def make_cluster_def
  exp1_config_def empty_backend_def redis_cmd_def str_int_def str_nat.simps tensorboard_cmd_def
  Let_def is_run_def is_run_on_def kill_agents_def killall_def tmux_kill_lit
  tmux_get_stdout_lit tmux_check_error_lit session_names_def window_names_def windows_of_def
  get_stdout_def get_stdout_body_def check_error_def check_error_body_def
  iterate_all_windows_def iterate_windows_def iterate_sessions_def slot_key_def

section \<open>Command builder\<close>

lemma startswith_iff: "startswith s p \<longleftrightarrow> (\<exists>t. s = p @ t)"
  unfolding startswith_def
  by (metis append_eq_conv_conj append_take_drop_id)

lemma endswith_iff: "endswith s p \<longleftrightarrow> (\<exists>t. s = t @ p)"
  unfolding endswith_def
  by (metis append_eq_conv_conj append_take_drop_id diff_add_inverse2 le_add2 length_append)

text \<open>
  C5. For every script reference: one that starts with \<open>python\<close> is returned unchanged;
  otherwise one that ends with \<open>.py\<close> gives \<open>python -u\<close> followed by the reference;
  otherwise one that contains \<open>/\<close> fails with \<open>MalformedScriptReference\<close>; otherwise it
  is a dotted module path and gives \<open>python -u -m\<close> followed by the reference.
\<close>

theorem get_python_cmd_cases:
  "get_python_cmd s =
     (if (\<exists>t. s = ''python'' @ t) then Inr s
      else if (\<exists>t. s = t @ ''.py'') then Inr (''python -u '' @ s)
      else if CHR ''/'' \<in> set s then Inl MalformedScriptReference
      else Inr (''python -u -m '' @ s))"
  unfolding get_python_cmd_def startswith_iff endswith_iff by simp

theorem get_python_cmd_cases_witness:
  "get_python_cmd ''foo.bar.baz'' = Inr ''python -u -m foo.bar.baz''
   \<and> get_python_cmd ''run.py'' = Inr ''python -u run.py''
   \<and> get_python_cmd ''scripts/run.py'' = Inr ''python -u scripts/run.py''
   \<and> get_python_cmd ''pkg/run'' = Inl MalformedScriptReference
   \<and> get_python_cmd ''python run.py --x'' = Inr ''python run.py --x''"
  using get_python_cmd_cases [of "''foo.bar.baz''"] get_python_cmd_cases [of "''run.py''"]
    get_python_cmd_cases [of "''scripts/run.py''"] get_python_cmd_cases [of "''pkg/run''"]
    get_python_cmd_cases [of "''python run.py --x''"]
  by (simp add: startswith_iff [symmetric] endswith_iff [symmetric] startswith_def endswith_def)

section \<open>Naming and grouping\<close>

text \<open>
  Every cluster that \<open>__init__\<close> builds has the three session names derived from its
  cluster name; \<open>exp1\<close> is the cluster built from the module paths \<open>agent_main\<close> and
  \<open>learner_main\<close> with no evaluator.
\<close>

lemma init_make_cluster:
  "init name cfg a l e = Inr cl \<Longrightarrow> \<exists>ac lc ec. cl = make_cluster name cfg ac lc ec"
  by (auto simp: init_def split: sum.splits option.splits)

lemma init_exp1: "init ''exp1'' exp1_config ''agent_main'' ''learner_main'' None = Inr exp1"
  by (simp add: init_def get_python_cmd_def startswith_def endswith_def exp1_def)

text \<open>
  C4, as the code has it. For every cluster name, \<open>_session_group\<close> maps the tags
  \<open>infras\<close>, \<open>learner\<close> and \<open>agent\<close> to \<open>infras-\<close>, \<open>learner-\<close> and \<open>agent-\<close> followed
  by the cluster name, the three session names are pairwise distinct, and every other tag
  fails with \<open>InvalidGroup\<close>.
\<close>

theorem session_group_cases:
  "session_group (make_cluster name cfg a l e) g =
     (if g = ''infras'' then Inr (''infras-'' @ name)
      else if g = ''learner'' then Inr (''learner-'' @ name)
      else if g = ''agent'' then Inr (''agent-'' @ name)
      else Inl InvalidGroup)
   \<and> ''infras-'' @ name \<noteq> ''learner-'' @ name
   \<and> ''infras-'' @ name \<noteq> ''agent-'' @ name
   \<and> ''learner-'' @ name \<noteq> ''agent-'' @ name"
  by (simp add: session_group_def make_cluster_def)

theorem session_group_cases_witness:
  "session_group exp1 ''infras'' = Inr ''infras-exp1''
   \<and> session_group exp1 ''learner'' = Inr ''learner-exp1''
   \<and> session_group exp1 ''agent'' = Inr ''agent-exp1''
   \<and> session_group exp1 ''tensorplex'' = Inl InvalidGroup"
  using session_group_cases [of "''exp1''" exp1_config "''python -u -m agent_main''"
      "''python -u -m learner_main''" None "''infras''"]
    session_group_cases [of "''exp1''" exp1_config "''python -u -m agent_main''"
      "''python -u -m learner_main''" None "''learner''"]
    session_group_cases [of "''exp1''" exp1_config "''python -u -m agent_main''"
      "''python -u -m learner_main''" None "''agent''"]
    session_group_cases [of "''exp1''" exp1_config "''python -u -m agent_main''"
      "''python -u -m learner_main''" None "''tensorplex''"]
  by (simp add: exp1_def)

text \<open>
  C4, as the claim states it: the tag \<open>infra\<close> is not one of the three tags of the code,
  which are \<open>agent\<close>, \<open>learner\<close> and \<open>infras\<close>; it fails with \<open>InvalidGroup\<close> and is not
  mapped to the infrastructure session.
\<close>

theorem session_group_infra_counterexample:
  "session_group exp1 ''infra'' = Inl InvalidGroup
   \<and> session_group exp1 ''infra'' \<noteq> Inr (''infras-'' @ ''exp1'')"
  by (simp add: session_group_def)

section \<open>The backend operations on sessions, windows and the trace\<close>

lemma calls_tmux_run [simp]: "calls (tmux_run b s w c) = calls b @ [Run s w c]"
  by (simp add: tmux_run_def)

lemma panes_tmux_run [simp]:
  "pane_lines (tmux_run b s w c) = pane_lines b" "pane_error (tmux_run b s w c) = pane_error b"
  by (simp_all add: tmux_run_def)

lemma session_names_tmux_run:
  "session_names (tmux_run b s w c) =
     (if s \<in> set (session_names b) then session_names b else session_names b @ [s])"
  by (simp add: tmux_run_def session_names_def update_keys)

lemma window_names_tmux_run:
  "window_names (tmux_run b s w c) s' =
     (if s' = s
      then (if w \<in> set (window_names b s) then window_names b s else window_names b s @ [w])
      else window_names b s')"
  by (simp add: tmux_run_def window_names_def windows_of_def update_conv' update_keys)

lemma calls_tmux_kill [simp]: "calls (tmux_kill b s w) = calls b @ [Kill s w]"
  by (simp add: tmux_kill_def)

lemma panes_tmux_kill [simp]:
  "pane_lines (tmux_kill b s w) = pane_lines b" "pane_error (tmux_kill b s w) = pane_error b"
  by (simp_all add: tmux_kill_def)

lemma session_names_kill_session:
  "session_names (tmux_kill b s None) = removeAll s (session_names b)"
  by (simp add: tmux_kill_def session_names_def delete_keys)

lemma window_names_in_session:
  assumes "w \<in> set (window_names b s)"
  shows "s \<in> set (session_names b)"
proof -
  from assms have "map_of (sessions b) s \<noteq> None"
    by (cases "map_of (sessions b) s") (simp_all add: window_names_def windows_of_def)
  then have "s \<in> dom (map_of (sessions b))"
    by auto
  then show ?thesis
    by (simp add: dom_map_of_conv_image_fst session_names_def)
qed

lemma delete_Nil_iff: "AList.delete w ws = [] \<longleftrightarrow> removeAll w (map fst ws) = []"
  by (metis delete_keys map_is_Nil_conv)

lemma session_names_kill_window:
  "session_names (tmux_kill b s (Some w)) =
     (if w \<in> set (window_names b s) \<and> removeAll w (window_names b s) = []
      then removeAll s (session_names b) else session_names b)"
proof (cases "w \<in> set (window_names b s)")
  case False
  then show ?thesis by (simp add: tmux_kill_def session_names_def)
next
  case True
  then have "s \<in> set (map fst (sessions b))"
    using window_names_in_session[of w b s] by (simp add: session_names_def)
  with True show ?thesis
    by (simp add: tmux_kill_def session_names_def Let_def delete_keys update_keys
        delete_Nil_iff window_names_def)
qed

lemma window_names_kill_window:
  "window_names (tmux_kill b s (Some w)) s' =
     (if s' = s then removeAll w (window_names b s) else window_names b s')"
proof (cases "w \<in> set (window_names b s)")
  case False
  then show ?thesis
    by (simp add: tmux_kill_def window_names_def windows_of_def)
next
  case True
  then show ?thesis
    by (simp add: tmux_kill_def window_names_def windows_of_def Let_def delete_keys
        update_conv' delete_conv' delete_Nil_iff)
qed

lemma sessions_kill_absent_window:
  "w \<notin> set (window_names b s) \<Longrightarrow> sessions (tmux_kill b s (Some w)) = sessions b"
  by (simp add: tmux_kill_def)

section \<open>Bring-up\<close>

lemma is_launched_infras:
  "is_launched cl ''infras'' b =
     (b\<lparr>calls := calls b @ [ListSessionNames]\<rparr>, Inr (infras_session cl \<in> set (session_names b)))"
  by (simp add: is_launched_def session_group_def list_session_names_def)

lemma is_launched_learner:
  "is_launched cl ''learner'' b =
     (b\<lparr>calls := calls b @ [ListSessionNames]\<rparr>, Inr (learner_session cl \<in> set (session_names b)))"
  by (simp add: is_launched_def session_group_def list_session_names_def)

lemma is_launched_agent:
  "is_launched cl ''agent'' b =
     (b\<lparr>calls := calls b @ [ListSessionNames]\<rparr>, Inr (agent_session cl \<in> set (session_names b)))"
  by (simp add: is_launched_def session_group_def list_session_names_def)

lemma get_tensorplex_cmd_loggerplex:
  "get_tensorplex_cmd cl LOGGERPLEX_SCRIPT =
     Inr (''python -u -m surreal.session.run_loggerplex_server '' @ shlex_quote (json_dumps (config cl)))"
  by (simp add: get_tensorplex_cmd_def LOGGERPLEX_SCRIPT_def get_python_cmd_def startswith_def
      endswith_def)

lemma get_tensorplex_cmd_tensorplex:
  "get_tensorplex_cmd cl TENSORPLEX_SCRIPT =
     Inr (''python -u -m surreal.session.run_tensorplex_server '' @ shlex_quote (json_dumps (config cl)))"
  by (simp add: get_tensorplex_cmd_def TENSORPLEX_SCRIPT_def get_python_cmd_def startswith_def
      endswith_def)

lemma session_names_trace [simp]: "session_names (b\<lparr>calls := cs\<rparr>) = session_names b"
  by (simp add: session_names_def)

lemma window_names_trace [simp]: "window_names (b\<lparr>calls := cs\<rparr>) s = window_names b s"
  by (simp add: window_names_def windows_of_def)

lemma set_session_names_tmux_run [simp]:
  "set (session_names (tmux_run b s w c)) = insert s (set (session_names b))"
  by (auto simp: session_names_tmux_run)

lemma snd_launch_infras [simp]: "snd (launch_infras cl b) = Inr ()"
  by (simp add: launch_infras_def get_tensorplex_cmd_loggerplex get_tensorplex_cmd_tensorplex)

lemma calls_launch_infras:
  "calls (fst (launch_infras cl b)) =
     calls b @
     [Run (infras_session cl) (''redis-'' @ replay_name (config cl)) (redis_cmd (replay_port (config cl))),
      Run (infras_session cl) (''redis-'' @ ps_name (config cl)) (redis_cmd (ps_port (config cl))),
      Run (infras_session cl) ''redis-plex'' (redis_cmd (tensorplex_port (config cl))),
      Run (infras_session cl) ''loggerplex''
        (''python -u -m surreal.session.run_loggerplex_server '' @ shlex_quote (json_dumps (config cl))),
      Run (infras_session cl) ''tensorplex''
        (''python -u -m surreal.session.run_tensorplex_server '' @ shlex_quote (json_dumps (config cl))),
      Run (infras_session cl) ''tensorboard'' (tensorboard_cmd cl)]"
  by (simp add: launch_infras_def get_tensorplex_cmd_loggerplex get_tensorplex_cmd_tensorplex)

lemma set_session_names_launch_infras [simp]:
  "set (session_names (fst (launch_infras cl b))) = insert (infras_session cl) (set (session_names b))"
  by (simp add: launch_infras_def get_tensorplex_cmd_loggerplex get_tensorplex_cmd_tensorplex)

lemma window_names_tmux_run_other:
  "s' \<noteq> s \<Longrightarrow> window_names (tmux_run b s w c) s' = window_names b s'"
  by (simp add: window_names_tmux_run)

lemma calls_launch_learner:
  "calls (launch_learner cl b) =
     calls b @ Run (learner_session cl) ''learner'' (learner_cmd cl)
       # (case evaluator_cmd cl of None \<Rightarrow> []
          | Some ecmd \<Rightarrow> [Run (learner_session cl) ''evaluator'' ecmd])"
  by (simp add: launch_learner_def split: option.splits)

lemma set_session_names_launch_learner [simp]:
  "set (session_names (launch_learner cl b)) = insert (learner_session cl) (set (session_names b))"
  by (simp add: launch_learner_def Let_def split: option.splits)

lemma calls_run_agents:
  "calls (run_agents cl b xs) =
     calls b @ map (\<lambda>(n, a). Run (agent_session cl) n (agent_cmd cl @ '' '' @ a)) xs"
  unfolding run_agents_def
  by (induction xs arbitrary: b) (auto)

lemma set_session_names_run_agents:
  "set (session_names (run_agents cl b xs)) =
     (if xs = [] then set (session_names b) else insert (agent_session cl) (set (session_names b)))"
  unfolding run_agents_def
  by (induction xs arbitrary: b) (auto)

lemma add_agents_unfold:
  "add_agents cl agent_names agent_args b =
     (case get_agent_info agent_names agent_args of
        Inl e \<Rightarrow> (b, Inl e)
      | Inr (names, args) \<Rightarrow>
          if set (window_names b (agent_session cl)) \<inter> set names \<noteq> {}
          then (b\<lparr>calls := calls b @ [ListWindowNames (agent_session cl)]\<rparr>,
                Inl DuplicateRunningAgent)
          else (run_agents cl (b\<lparr>calls := calls b @ [ListWindowNames (agent_session cl)]\<rparr>)
                  (zip names args), Inr ()))"
  by (simp add: add_agents_def get_running_agents_def list_window_names_def
      split: sum.splits prod.splits)

lemma agent_args_loop_length:
  "agent_args_loop as = Inr cmds \<Longrightarrow> length cmds = length as"
  by (induction as arbitrary: cmds) (auto split: sum.splits)

lemma length_remdups_distinct: "length xs \<noteq> length (remdups xs) \<longleftrightarrow> \<not> distinct xs"
  by (metis length_remdups_eq remdups_id_iff_distinct)

lemma get_agent_info_Inr:
  "get_agent_info ns as = Inr (names, args) \<Longrightarrow>
     names = map str ns \<and> distinct names \<and> length args = length names"
  by (auto simp: get_agent_info_def Let_def length_remdups_distinct
      split: if_splits sum.splits dest: agent_args_loop_length)

lemma get_agent_info_duplicate:
  "\<not> distinct (map str ns) \<Longrightarrow> get_agent_info ns as = Inl DuplicateAgentName"
  by (simp add: get_agent_info_def Let_def length_remdups_distinct)

lemma add_agents_calls:
  "\<exists>rest. calls (fst (add_agents cl ns as b)) = calls b @ rest
     \<and> (\<forall>c \<in> set rest. \<forall>s. is_run_on s c \<longrightarrow> s = agent_session cl)"
  by (auto simp: add_agents_unfold calls_run_agents is_run_on_def split: sum.splits)

lemma launch_unfold:
  "launch cl agent_names agent_args b =
     (let b1 = b\<lparr>calls := calls b @ [ListSessionNames]\<rparr>;
          b2 = (if infras_session cl \<in> set (session_names b) then b1
                else fst (launch_infras cl b1));
          b3 = b2\<lparr>calls := calls b2 @ [ListSessionNames]\<rparr>;
          b4 = (if learner_session cl \<in> set (session_names b2) then b3
                else launch_learner cl b3);
          b5 = b4\<lparr>calls := calls b4 @ [ListSessionNames]\<rparr>
      in if agent_session cl \<in> set (session_names b4) then (b5, Inr ())
         else add_agents cl agent_names agent_args b5)"
proof -
  obtain i where i: "launch_infras cl (b\<lparr>calls := calls b @ [ListSessionNames]\<rparr>) = (i, Inr ())"
    by (metis prod.collapse snd_launch_infras)
  show ?thesis
    by (simp add: launch_def is_launched_infras is_launched_learner is_launched_agent i Let_def)
qed

lemma launch_tail_calls:
  assumes "infras \<noteq> learner_session cl" "infras \<noteq> agent_session cl"
  shows "\<exists>rest. calls (fst (
      let b3 = b2\<lparr>calls := calls b2 @ [ListSessionNames]\<rparr>;
          b4 = (if learner_session cl \<in> set (session_names b2) then b3
                else launch_learner cl b3);
          b5 = b4\<lparr>calls := calls b4 @ [ListSessionNames]\<rparr>
      in if agent_session cl \<in> set (session_names b4) then (b5, Inr ())
         else add_agents cl agent_names agent_args b5)) = calls b2 @ rest
     \<and> (\<forall>c \<in> set rest. \<not> is_run_on infras c)"
proof -
  define b3 where "b3 = b2\<lparr>calls := calls b2 @ [ListSessionNames]\<rparr>"
  define b4 where "b4 = (if learner_session cl \<in> set (session_names b2) then b3
                else launch_learner cl b3)"
  define b5 where "b5 = b4\<lparr>calls := calls b4 @ [ListSessionNames]\<rparr>"
  have c4: "\<exists>r. calls b4 = calls b2 @ r \<and> (\<forall>c \<in> set r. \<not> is_run_on infras c)"
    using assms(1)
    by (auto simp: b4_def b3_def calls_launch_learner is_run_on_def split: option.splits)
  then obtain r where r: "calls b4 = calls b2 @ r" "\<forall>c \<in> set r. \<not> is_run_on infras c"
    by blast
  obtain r' where r': "calls (fst (add_agents cl agent_names agent_args b5)) = calls b5 @ r'"
    "\<forall>c \<in> set r'. \<forall>s. is_run_on s c \<longrightarrow> s = agent_session cl"
    using add_agents_calls [of cl agent_names agent_args b5] by blast
  have "calls (fst (if agent_session cl \<in> set (session_names b4) then (b5, Inr ())
         else add_agents cl agent_names agent_args b5)) =
        calls b2 @ (r @ ListSessionNames # (if agent_session cl \<in> set (session_names b4) then [] else r'))"
    using r(1) r'(1) by (simp add: b5_def)
  moreover have "\<forall>c \<in> set (r @ ListSessionNames # (if agent_session cl \<in> set (session_names b4) then [] else r')).
      \<not> is_run_on infras c"
    using r(2) r'(2) assms(2) by (auto simp: is_run_on_def)
  ultimately show ?thesis
    unfolding Let_def b3_def [symmetric] b4_def [symmetric] b5_def [symmetric] by blast
qed

text \<open>
  C1. For a cluster built from a cluster name: when the infrastructure session is not
  among the backend's sessions, the calls \<open>launch\<close> issues start with the session
  listing of the absence check followed by exactly six window creations in the
  infrastructure session, in this order: \<open>redis-\<close> plus the replay name, \<open>redis-\<close> plus
  the parameter-server name and \<open>redis-plex\<close>, each running
  \<open>redis-server --port <port> --protected-mode no\<close> with its configured port; then
  \<open>loggerplex\<close> and \<open>tensorplex\<close>, running the two server scripts with the shell-quoted
  JSON configuration as sole argument; then \<open>tensorboard\<close> with the configured folder and
  \<open>tb_port\<close>; no later call creates a window in the infrastructure session. When the
  infrastructure session exists, \<open>launch\<close> creates no window in it.
\<close>

theorem launch_infras_order:
  "(let cl = make_cluster name cfg ac lc ec; infras = ''infras-'' @ name;
        b' = fst (launch cl agent_names agent_args b)
    in (infras \<notin> set (session_names b) \<longrightarrow>
          (\<exists>rest. calls b' = calls b @
             [ListSessionNames,
              Run infras (''redis-'' @ replay_name cfg)
                (''redis-server --port '' @ str_int (replay_port cfg) @ '' --protected-mode no''),
              Run infras (''redis-'' @ ps_name cfg)
                (''redis-server --port '' @ str_int (ps_port cfg) @ '' --protected-mode no''),
              Run infras ''redis-plex''
                (''redis-server --port '' @ str_int (tensorplex_port cfg) @ '' --protected-mode no''),
              Run infras ''loggerplex''
                (''python -u -m surreal.session.run_loggerplex_server ''
                   @ shlex_quote (json_dumps cfg)),
              Run infras ''tensorplex''
                (''python -u -m surreal.session.run_tensorplex_server ''
                   @ shlex_quote (json_dumps cfg)),
              Run infras ''tensorboard''
                (''tensorboard --logdir '' @ tensorplex_folder cfg @ '' --port ''
                   @ str_int (tensorplex_tb_port cfg))] @ rest
            \<and> (\<forall>c \<in> set rest. \<not> is_run_on infras c)))
     \<and> (infras \<in> set (session_names b) \<longrightarrow>
          (\<exists>rest. calls b' = calls b @ rest \<and> (\<forall>c \<in> set rest. \<not> is_run_on infras c))))"
proof -
  define cl where "cl = make_cluster name cfg ac lc ec"
  have names: "infras_session cl = ''infras-'' @ name" "config cl = cfg"
    "''infras-'' @ name \<noteq> learner_session cl" "''infras-'' @ name \<noteq> agent_session cl"
    by (simp_all add: cl_def make_cluster_def)
  have tail: "\<exists>rest. calls (fst (
      let b3 = b2\<lparr>calls := calls b2 @ [ListSessionNames]\<rparr>;
          b4 = (if learner_session cl \<in> set (session_names b2) then b3
                else launch_learner cl b3);
          b5 = b4\<lparr>calls := calls b4 @ [ListSessionNames]\<rparr>
      in if agent_session cl \<in> set (session_names b4) then (b5, Inr ())
         else add_agents cl agent_names agent_args b5)) = calls b2 @ rest
     \<and> (\<forall>c \<in> set rest. \<not> is_run_on (''infras-'' @ name) c)" for b2
    using launch_tail_calls [OF names(3,4)] .
  have absent: ?thesis if "''infras-'' @ name \<notin> set (session_names b)"
    using that tail [of "fst (launch_infras cl (b\<lparr>calls := calls b @ [ListSessionNames]\<rparr>))"]
    unfolding Let_def cl_def [symmetric]
    by (simp add: launch_unfold [of cl] Let_def names calls_launch_infras redis_cmd_def
        tensorboard_cmd_def)
  have present: ?thesis if "''infras-'' @ name \<in> set (session_names b)"
  proof -
    define b1 where "b1 = b\<lparr>calls := calls b @ [ListSessionNames]\<rparr>"
    have eq: "launch cl agent_names agent_args b =
      (let b3 = b1\<lparr>calls := calls b1 @ [ListSessionNames]\<rparr>;
          b4 = (if learner_session cl \<in> set (session_names b1) then b3
                else launch_learner cl b3);
          b5 = b4\<lparr>calls := calls b4 @ [ListSessionNames]\<rparr>
      in if agent_session cl \<in> set (session_names b4) then (b5, Inr ())
         else add_agents cl agent_names agent_args b5)"
      using that unfolding launch_unfold [of cl] b1_def Let_def names(1) by simp
    obtain rest where rest:
      "calls (fst (launch cl agent_names agent_args b)) = calls b1 @ rest"
      "\<forall>c \<in> set rest. \<not> is_run_on (''infras-'' @ name) c"
      using tail [of b1] unfolding eq by blast
    have "calls (fst (launch cl agent_names agent_args b)) = calls b @ (ListSessionNames # rest)"
      "\<forall>c \<in> set (ListSessionNames # rest). \<not> is_run_on (''infras-'' @ name) c"
      using rest by (simp_all add: is_run_on_def b1_def)
    with that show ?thesis
      unfolding Let_def cl_def [symmetric] by blast
  qed
  from absent present show ?thesis by blast
qed

theorem launch_infras_order_witness:
  "''infras-exp1'' \<notin> set (session_names empty_backend)
   \<and> (\<exists>rest. calls (fst (launch exp1 [PyStr ''agent0''] [ArgList [PyStr ''--id'', PyInt 0]]
                          empty_backend)) =
        [ListSessionNames,
         Run ''infras-exp1'' ''redis-replay'' ''redis-server --port 6379 --protected-mode no'',
         Run ''infras-exp1'' ''redis-ps'' ''redis-server --port 6380 --protected-mode no'',
         Run ''infras-exp1'' ''redis-plex'' ''redis-server --port 6381 --protected-mode no'',
         Run ''infras-exp1'' ''loggerplex''
           (''python -u -m surreal.session.run_loggerplex_server '' @ [CHR 0x27] @ ''{}'' @ [CHR 0x27]),
         Run ''infras-exp1'' ''tensorplex''
           (''python -u -m surreal.session.run_tensorplex_server '' @ [CHR 0x27] @ ''{}'' @ [CHR 0x27]),
         Run ''infras-exp1'' ''tensorboard'' ''tensorboard --logdir /tmp/exp1 --port 6006''] @ rest
        \<and> (\<forall>c \<in> set rest. \<not> is_run_on ''infras-exp1'' c))"
proof -
  have absent: "''infras-exp1'' \<notin> set (session_names empty_backend)"
    by (simp add: empty_backend_def session_names_def)
  have ports: "str_int 6379 = ''6379''" "str_int 6380 = ''6380''" "str_int 6381 = ''6381''"
    "str_int 6006 = ''6006''"
    by (simp_all add: str_int_def str_nat.simps)
  have quoted: "shlex_quote ''{}'' = [CHR 0x27] @ ''{}'' @ [CHR 0x27]"
    by (simp add: shlex_quote_def safe_char_def)
  show ?thesis
    using absent launch_infras_order [where name = "''exp1''" and b = empty_backend
        and cfg = exp1_config and ac = "''python -u -m agent_main''"
        and lc = "''python -u -m learner_main''" and ec = None
        and agent_names = "[PyStr ''agent0'']"
        and agent_args = "[ArgList [PyStr ''--id'', PyInt 0]]"]
    unfolding Let_def exp1_def [symmetric]
    by (simp add: exp1_config_def ports quoted empty_backend_def)
qed

section \<open>Idempotence of bring-up\<close>

lemma set_session_names_fst_add_agents:
  "set (session_names (fst (add_agents cl ns as b))) =
     (case get_agent_info ns as of
        Inl e \<Rightarrow> set (session_names b)
      | Inr (names, args) \<Rightarrow>
          if set (window_names b (agent_session cl)) \<inter> set names = {} \<and> zip names args \<noteq> []
          then insert (agent_session cl) (set (session_names b))
          else set (session_names b))"
  by (simp add: add_agents_unfold set_session_names_run_agents split: sum.splits)

lemma window_names_absent:
  "s \<notin> set (session_names b) \<Longrightarrow> window_names b s = []"
  using window_names_in_session [of _ b s] by (cases "window_names b s") auto

lemma run_agents_Nil [simp]: "run_agents cl b [] = b"
  by (simp add: run_agents_def)

lemma add_agents_no_run:
  assumes "agent_session cl \<notin> set (session_names (fst (add_agents cl ns as b)))"
    and "agent_session cl \<notin> set (session_names b)"
    and "sessions b' = sessions b"
  shows "\<exists>rest. calls (fst (add_agents cl ns as b')) = calls b' @ rest
           \<and> (\<forall>c \<in> set rest. \<not> is_run c)"
    and "sessions (fst (add_agents cl ns as b')) = sessions b'"
proof -
  have w: "window_names b (agent_session cl) = []" "window_names b' (agent_session cl) = []"
    using assms(2,3) window_names_absent [of "agent_session cl" b]
    by (simp_all add: window_names_def windows_of_def)
  show "\<exists>rest. calls (fst (add_agents cl ns as b')) = calls b' @ rest
           \<and> (\<forall>c \<in> set rest. \<not> is_run c)"
    using assms(1) w
    by (auto simp: add_agents_unfold set_session_names_run_agents is_run_def
        split: sum.splits if_splits)
  show "sessions (fst (add_agents cl ns as b')) = sessions b'"
    using assms(1) w
    by (auto simp: add_agents_unfold set_session_names_run_agents
        split: sum.splits if_splits)
qed

lemma launch_second_call:
  "(let b1 = fst (launch cl agent_names agent_args b);
        b2 = fst (launch cl agent_names agent_args b1)
    in (\<exists>rest. calls b2 = calls b1 @ rest \<and> (\<forall>c \<in> set rest. \<not> is_run c))
       \<and> sessions b2 = sessions b1
       \<and> (\<exists>rest. calls b1 = calls b @ rest
             \<and> (\<forall>c \<in> set rest. \<forall>s. is_run_on s c \<longrightarrow>
                   s \<notin> set (session_names b)
                   \<and> s \<in> {infras_session cl, learner_session cl, agent_session cl})))"
proof -
  define a1 where "a1 = b\<lparr>calls := calls b @ [ListSessionNames]\<rparr>"
  define a2 where "a2 = (if infras_session cl \<in> set (session_names b) then a1
                         else fst (launch_infras cl a1))"
  define a3 where "a3 = a2\<lparr>calls := calls a2 @ [ListSessionNames]\<rparr>"
  define a4 where "a4 = (if learner_session cl \<in> set (session_names a2) then a3
                         else launch_learner cl a3)"
  define a5 where "a5 = a4\<lparr>calls := calls a4 @ [ListSessionNames]\<rparr>"
  define r where "r = fst (launch cl agent_names agent_args b)"
  have r_eq: "r = (if agent_session cl \<in> set (session_names a4) then a5
                   else fst (add_agents cl agent_names agent_args a5))"
    by (simp add: r_def launch_unfold Let_def a1_def a2_def a3_def a4_def a5_def)
  have S2: "set (session_names a2) = insert (infras_session cl) (set (session_names b))"
    by (auto simp: a2_def a1_def)
  have S4: "set (session_names a4) = insert (learner_session cl) (set (session_names a2))"
    by (auto simp: a4_def a3_def)
  have S5: "set (session_names a5) = set (session_names a4)"
    by (simp add: a5_def)
  have Sr: "set (session_names a4) \<subseteq> set (session_names r)"
    by (auto simp: r_eq S5 set_session_names_fst_add_agents split: sum.splits)
  have up: "infras_session cl \<in> set (session_names r)" "learner_session cl \<in> set (session_names r)"
    using Sr S2 S4 by auto
  define r3 where "r3 = r\<lparr>calls := calls r @ [ListSessionNames, ListSessionNames, ListSessionNames]\<rparr>"
  have second: "launch cl agent_names agent_args r =
      (if agent_session cl \<in> set (session_names r) then (r3, Inr ())
       else add_agents cl agent_names agent_args r3)"
    using up by (simp add: launch_unfold Let_def r3_def)
  have idem: "(\<exists>rest. calls (fst (launch cl agent_names agent_args r)) = calls r @ rest
                 \<and> (\<forall>c \<in> set rest. \<not> is_run c))
              \<and> sessions (fst (launch cl agent_names agent_args r)) = sessions r"
  proof (cases "agent_session cl \<in> set (session_names r)")
    case True
    have "calls r3 = calls r @ [ListSessionNames, ListSessionNames, ListSessionNames]"
      "\<forall>c \<in> set [ListSessionNames, ListSessionNames, ListSessionNames]. \<not> is_run c"
      by (simp_all add: r3_def is_run_def)
    moreover have "sessions r3 = sessions r"
      by (simp add: r3_def)
    ultimately show ?thesis
      using True unfolding second by auto
  next
    case False
    then have not4: "agent_session cl \<notin> set (session_names a4)"
      using Sr by blast
    then have r_add: "r = fst (add_agents cl agent_names agent_args a5)"
      by (simp add: r_eq)
    have not5: "agent_session cl \<notin> set (session_names a5)"
      using not4 S5 by simp
    have notr: "agent_session cl \<notin> set (session_names (fst (add_agents cl agent_names agent_args a5)))"
      using False r_add by simp
    have same: "sessions r = sessions a5"
      using add_agents_no_run(2) [OF notr not5, of a5] r_add by simp
    have same3: "sessions r3 = sessions a5"
      using same by (simp add: r3_def)
    obtain rest where rest: "calls (fst (add_agents cl agent_names agent_args r3)) = calls r3 @ rest"
      "\<forall>c \<in> set rest. \<not> is_run c"
      using add_agents_no_run(1) [OF notr not5 same3] by blast
    have "calls (fst (add_agents cl agent_names agent_args r3)) =
            calls r @ ([ListSessionNames, ListSessionNames, ListSessionNames] @ rest)"
      "\<forall>c \<in> set ([ListSessionNames, ListSessionNames, ListSessionNames] @ rest). \<not> is_run c"
      using rest by (simp_all add: r3_def is_run_def)
    moreover have "sessions (fst (add_agents cl agent_names agent_args r3)) = sessions r"
      using add_agents_no_run(2) [OF notr not5 same3] same same3 by simp
    ultimately show ?thesis
      using False unfolding second by (simp del: append.simps)
  qed
  have c2: "\<exists>x. calls a2 = calls b @ x \<and> (\<forall>c \<in> set x. \<forall>s. is_run_on s c \<longrightarrow>
      s \<notin> set (session_names b) \<and> s = infras_session cl)"
    by (auto simp: a2_def a1_def calls_launch_infras is_run_on_def)
  have c4: "\<exists>x. calls a4 = calls a2 @ x \<and> (\<forall>c \<in> set x. \<forall>s. is_run_on s c \<longrightarrow>
      s \<notin> set (session_names a2) \<and> s = learner_session cl)"
    by (auto simp: a4_def a3_def calls_launch_learner is_run_on_def split: option.splits)
  have cr: "\<exists>x. calls r = calls a4 @ x \<and> (\<forall>c \<in> set x. \<forall>s. is_run_on s c \<longrightarrow>
      s \<notin> set (session_names a4) \<and> s = agent_session cl)"
  proof (cases "agent_session cl \<in> set (session_names a4)")
    case True
    then show ?thesis by (auto simp: r_eq a5_def is_run_on_def)
  next
    case False
    obtain x where x: "calls (fst (add_agents cl agent_names agent_args a5)) = calls a5 @ x"
      "\<forall>c \<in> set x. \<forall>s. is_run_on s c \<longrightarrow> s = agent_session cl"
      using add_agents_calls [of cl agent_names agent_args a5] by blast
    have "calls r = calls a4 @ (ListSessionNames # x)"
      using False x(1) by (simp add: r_eq a5_def)
    moreover have "\<forall>c \<in> set (ListSessionNames # x). \<forall>s. is_run_on s c \<longrightarrow>
      s \<notin> set (session_names a4) \<and> s = agent_session cl"
      using False x(2) by (auto simp: is_run_on_def)
    ultimately show ?thesis by blast
  qed
  have missing: "\<exists>rest. calls r = calls b @ rest
             \<and> (\<forall>c \<in> set rest. \<forall>s. is_run_on s c \<longrightarrow>
                   s \<notin> set (session_names b)
                   \<and> s \<in> {infras_session cl, learner_session cl, agent_session cl})"
  proof -
    from c2 obtain x2 where x2: "calls a2 = calls b @ x2" "\<forall>c \<in> set x2. \<forall>s. is_run_on s c \<longrightarrow>
      s \<notin> set (session_names b) \<and> s = infras_session cl" by blast
    from c4 obtain x4 where x4: "calls a4 = calls a2 @ x4" "\<forall>c \<in> set x4. \<forall>s. is_run_on s c \<longrightarrow>
      s \<notin> set (session_names a2) \<and> s = learner_session cl" by blast
    from cr obtain xr where xr: "calls r = calls a4 @ xr" "\<forall>c \<in> set xr. \<forall>s. is_run_on s c \<longrightarrow>
      s \<notin> set (session_names a4) \<and> s = agent_session cl" by blast
    have "calls r = calls b @ (x2 @ x4 @ xr)"
      using x2(1) x4(1) xr(1) by simp
    moreover have "\<forall>c \<in> set (x2 @ x4 @ xr). \<forall>s. is_run_on s c \<longrightarrow>
                   s \<notin> set (session_names b)
                   \<and> s \<in> {infras_session cl, learner_session cl, agent_session cl}"
      using x2(2) x4(2) xr(2) S2 S4 by auto
    ultimately show ?thesis by blast
  qed
  show ?thesis
    unfolding Let_def r_def [symmetric] using idem missing by blast
qed

lemma launch_trace:
  assumes d: "infras_session cl \<noteq> learner_session cl" "infras_session cl \<noteq> agent_session cl"
    "learner_session cl \<noteq> agent_session cl"
  shows "calls (fst (launch cl agent_names agent_args b)) =
      calls b
      @ ListSessionNames
        # (if infras_session cl \<in> set (session_names b) then []
           else [Run (infras_session cl) (''redis-'' @ replay_name (config cl))
                   (redis_cmd (replay_port (config cl))),
                 Run (infras_session cl) (''redis-'' @ ps_name (config cl))
                   (redis_cmd (ps_port (config cl))),
                 Run (infras_session cl) ''redis-plex'' (redis_cmd (tensorplex_port (config cl))),
                 Run (infras_session cl) ''loggerplex''
                   (''python -u -m surreal.session.run_loggerplex_server ''
                      @ shlex_quote (json_dumps (config cl))),
                 Run (infras_session cl) ''tensorplex''
                   (''python -u -m surreal.session.run_tensorplex_server ''
                      @ shlex_quote (json_dumps (config cl))),
                 Run (infras_session cl) ''tensorboard'' (tensorboard_cmd cl)])
      @ ListSessionNames
        # (if learner_session cl \<in> set (session_names b) then []
           else Run (learner_session cl) ''learner'' (learner_cmd cl)
                # (case evaluator_cmd cl of None \<Rightarrow> []
                   | Some ecmd \<Rightarrow> [Run (learner_session cl) ''evaluator'' ecmd]))
      @ ListSessionNames
        # (if agent_session cl \<in> set (session_names b) then []
           else (case get_agent_info agent_names agent_args of
                   Inl e \<Rightarrow> []
                 | Inr (names, args) \<Rightarrow>
                     ListWindowNames (agent_session cl)
                     # map (\<lambda>(n, a). Run (agent_session cl) n (agent_cmd cl @ '' '' @ a))
                         (zip names args)))"
    (is "_ = calls b @ ListSessionNames # ?I @ ListSessionNames # ?L @ ListSessionNames # ?A")
    and "infras_session cl \<in> set (session_names (fst (launch cl agent_names agent_args b)))"
    and "learner_session cl \<in> set (session_names (fst (launch cl agent_names agent_args b)))"
    and "agent_session cl \<in> set (session_names (fst (launch cl agent_names agent_args b))) \<longleftrightarrow>
           agent_session cl \<in> set (session_names b)
           \<or> (\<exists>names args. get_agent_info agent_names agent_args = Inr (names, args)
                 \<and> names \<noteq> [])"
proof -
  define a1 where "a1 = b\<lparr>calls := calls b @ [ListSessionNames]\<rparr>"
  define a2 where "a2 = (if infras_session cl \<in> set (session_names b) then a1
                         else fst (launch_infras cl a1))"
  define a3 where "a3 = a2\<lparr>calls := calls a2 @ [ListSessionNames]\<rparr>"
  define a4 where "a4 = (if learner_session cl \<in> set (session_names a2) then a3
                         else launch_learner cl a3)"
  define a5 where "a5 = a4\<lparr>calls := calls a4 @ [ListSessionNames]\<rparr>"
  define r where "r = fst (launch cl agent_names agent_args b)"
  have r_eq: "r = (if agent_session cl \<in> set (session_names a4) then a5
                   else fst (add_agents cl agent_names agent_args a5))"
    by (simp add: r_def launch_unfold Let_def a1_def a2_def a3_def a4_def a5_def)
  have S2: "set (session_names a2) = insert (infras_session cl) (set (session_names b))"
    by (auto simp: a2_def a1_def)
  have S4: "set (session_names a4) = insert (learner_session cl) (set (session_names a2))"
    by (auto simp: a4_def a3_def)
  have L: "learner_session cl \<in> set (session_names a2) \<longleftrightarrow>
      learner_session cl \<in> set (session_names b)"
    using d by (auto simp: S2)
  have A: "agent_session cl \<in> set (session_names a4) \<longleftrightarrow>
      agent_session cl \<in> set (session_names b)"
    using d by (auto simp: S4 S2)
  have c2: "calls a2 = calls b @ ListSessionNames # ?I"
    by (simp add: a2_def a1_def calls_launch_infras)
  have c4: "calls a4 = calls a2 @ ListSessionNames # ?L"
    by (simp add: a4_def a3_def calls_launch_learner L)
  have w5: "window_names a5 (agent_session cl) = []"
    if "agent_session cl \<notin> set (session_names b)"
    using that A window_names_absent [of "agent_session cl" a4] by (simp add: a5_def)
  have add: "add_agents cl agent_names agent_args a5 =
      (case get_agent_info agent_names agent_args of
         Inl e \<Rightarrow> (a5, Inl e)
       | Inr (names, args) \<Rightarrow>
           (run_agents cl (a5\<lparr>calls := calls a5 @ [ListWindowNames (agent_session cl)]\<rparr>)
              (zip names args), Inr ()))"
    if "agent_session cl \<notin> set (session_names b)"
    by (simp add: add_agents_unfold w5 [OF that] split: sum.splits)
  have cr: "calls r = calls a4 @ ListSessionNames # ?A"
  proof (cases "agent_session cl \<in> set (session_names b)")
    case True
    then show ?thesis by (simp add: r_eq A a5_def)
  next
    case False
    show ?thesis
      unfolding r_eq add [OF False]
      using False by (simp add: A calls_run_agents a5_def split: sum.splits)
  qed
  show "calls (fst (launch cl agent_names agent_args b)) =
      calls b @ ListSessionNames # ?I @ ListSessionNames # ?L @ ListSessionNames # ?A"
    unfolding r_def [symmetric] cr c4 c2 by simp
  have Sr: "set (session_names r) =
      (if agent_session cl \<in> set (session_names b) then set (session_names a4)
       else (case get_agent_info agent_names agent_args of
               Inl e \<Rightarrow> set (session_names a4)
             | Inr (names, args) \<Rightarrow>
                 if zip names args = [] then set (session_names a4)
                 else insert (agent_session cl) (set (session_names a4))))"
  proof (cases "agent_session cl \<in> set (session_names b)")
    case True
    then show ?thesis by (simp add: r_eq A a5_def)
  next
    case False
    show ?thesis
      unfolding r_eq add [OF False]
      using False by (simp add: A set_session_names_run_agents a5_def split: sum.splits)
  qed
  show "infras_session cl \<in> set (session_names (fst (launch cl agent_names agent_args b)))"
    unfolding r_def [symmetric] Sr by (simp add: S4 S2 split: sum.splits)
  show "learner_session cl \<in> set (session_names (fst (launch cl agent_names agent_args b)))"
    unfolding r_def [symmetric] Sr by (simp add: S4 S2 split: sum.splits)
  have z: "zip names args = [] \<longleftrightarrow> names = []"
    if "get_agent_info agent_names agent_args = Inr (names, args)" for names args
    using get_agent_info_Inr [OF that] by (auto simp: zip_eq_Nil_iff)
  show "agent_session cl \<in> set (session_names (fst (launch cl agent_names agent_args b))) \<longleftrightarrow>
           agent_session cl \<in> set (session_names b)
           \<or> (\<exists>names args. get_agent_info agent_names agent_args = Inr (names, args)
                 \<and> names \<noteq> [])"
  proof (cases "agent_session cl \<in> set (session_names b)")
    case True
    then show ?thesis unfolding r_def [symmetric] Sr by (simp add: S4 S2)
  next
    case False
    show ?thesis
    proof (cases "get_agent_info agent_names agent_args")
      case (Inl e)
      with False A show ?thesis unfolding r_def [symmetric] Sr by simp
    next
      case (Inr p)
      obtain names args where p: "p = (names, args)" by (cases p)
      with False A Inr z [of names args] show ?thesis
        unfolding r_def [symmetric] Sr by simp
    qed
  qed
qed

text \<open>
  C2. For every cluster, request and backend state: a second \<open>launch\<close> with the same
  arguments, run on the state the first one left, issues no window creation and leaves
  the sessions as they are; and every window a \<open>launch\<close> creates is in one of the three
  sessions of the cluster that was missing when it started. The three absence checks are
  independent: when the three session names differ (as they do for a cluster built from
  a cluster name), the calls of a \<open>launch\<close> are the session listing of the infras check
  followed by the six infras windows exactly when the infras session was missing, then
  the listing of the learner check followed by the learner window (and the evaluator
  window when one is configured) exactly when the learner session was missing, then the
  listing of the agent check followed by what \<open>add_agents\<close> issues exactly when the agent
  session was missing, each whatever the state of the other two sessions. Afterwards the
  infras and learner sessions exist, and the agent session exists when it did before or
  the request was accepted with at least one agent.
\<close>

theorem launch_idempotent:
  "(let b1 = fst (launch cl agent_names agent_args b);
        b2 = fst (launch cl agent_names agent_args b1)
    in (\<exists>rest. calls b2 = calls b1 @ rest \<and> (\<forall>c \<in> set rest. \<not> is_run c))
       \<and> sessions b2 = sessions b1
       \<and> (\<exists>rest. calls b1 = calls b @ rest
             \<and> (\<forall>c \<in> set rest. \<forall>s. is_run_on s c \<longrightarrow>
                   s \<notin> set (session_names b)
                   \<and> s \<in> {infras_session cl, learner_session cl, agent_session cl})))
   \<and> (infras_session cl \<noteq> learner_session cl \<and> infras_session cl \<noteq> agent_session cl
        \<and> learner_session cl \<noteq> agent_session cl \<longrightarrow>
        calls (fst (launch cl agent_names agent_args b)) =
          calls b
          @ ListSessionNames
            # (if infras_session cl \<in> set (session_names b) then []
               else [Run (infras_session cl) (''redis-'' @ replay_name (config cl))
                       (redis_cmd (replay_port (config cl))),
                     Run (infras_session cl) (''redis-'' @ ps_name (config cl))
                       (redis_cmd (ps_port (config cl))),
                     Run (infras_session cl) ''redis-plex''
                       (redis_cmd (tensorplex_port (config cl))),
                     Run (infras_session cl) ''loggerplex''
                       (''python -u -m surreal.session.run_loggerplex_server ''
                          @ shlex_quote (json_dumps (config cl))),
                     Run (infras_session cl) ''tensorplex''
                       (''python -u -m surreal.session.run_tensorplex_server ''
                          @ shlex_quote (json_dumps (config cl))),
                     Run (infras_session cl) ''tensorboard'' (tensorboard_cmd cl)])
          @ ListSessionNames
            # (if learner_session cl \<in> set (session_names b) then []
               else Run (learner_session cl) ''learner'' (learner_cmd cl)
                    # (case evaluator_cmd cl of None \<Rightarrow> []
                       | Some ecmd \<Rightarrow> [Run (learner_session cl) ''evaluator'' ecmd]))
          @ ListSessionNames
            # (if agent_session cl \<in> set (session_names b) then []
               else (case get_agent_info agent_names agent_args of
                       Inl e \<Rightarrow> []
                     | Inr (names, args) \<Rightarrow>
                         ListWindowNames (agent_session cl)
                         # map (\<lambda>(n, a). Run (agent_session cl) n (agent_cmd cl @ '' '' @ a))
                             (zip names args)))
        \<and> infras_session cl \<in> set (session_names (fst (launch cl agent_names agent_args b)))
        \<and> learner_session cl \<in> set (session_names (fst (launch cl agent_names agent_args b)))
        \<and> (agent_session cl \<in> set (session_names (fst (launch cl agent_names agent_args b)))
              \<longleftrightarrow>
            agent_session cl \<in> set (session_names b)
            \<or> (\<exists>names args. get_agent_info agent_names agent_args = Inr (names, args)
                  \<and> names \<noteq> [])))"
proof (rule conjI)
  show "(let b1 = fst (launch cl agent_names agent_args b);
        b2 = fst (launch cl agent_names agent_args b1)
    in (\<exists>rest. calls b2 = calls b1 @ rest \<and> (\<forall>c \<in> set rest. \<not> is_run c))
       \<and> sessions b2 = sessions b1
       \<and> (\<exists>rest. calls b1 = calls b @ rest
             \<and> (\<forall>c \<in> set rest. \<forall>s. is_run_on s c \<longrightarrow>
                   s \<notin> set (session_names b)
                   \<and> s \<in> {infras_session cl, learner_session cl, agent_session cl})))"
    by (rule launch_second_call)
next
  show "infras_session cl \<noteq> learner_session cl \<and> infras_session cl \<noteq> agent_session cl
        \<and> learner_session cl \<noteq> agent_session cl \<longrightarrow>
        calls (fst (launch cl agent_names agent_args b)) =
          calls b
          @ ListSessionNames
            # (if infras_session cl \<in> set (session_names b) then []
               else [Run (infras_session cl) (''redis-'' @ replay_name (config cl))
                       (redis_cmd (replay_port (config cl))),
                     Run (infras_session cl) (''redis-'' @ ps_name (config cl))
                       (redis_cmd (ps_port (config cl))),
                     Run (infras_session cl) ''redis-plex''
                       (redis_cmd (tensorplex_port (config cl))),
                     Run (infras_session cl) ''loggerplex''
                       (''python -u -m surreal.session.run_loggerplex_server ''
                          @ shlex_quote (json_dumps (config cl))),
                     Run (infras_session cl) ''tensorplex''
                       (''python -u -m surreal.session.run_tensorplex_server ''
                          @ shlex_quote (json_dumps (config cl))),
                     Run (infras_session cl) ''tensorboard'' (tensorboard_cmd cl)])
          @ ListSessionNames
            # (if learner_session cl \<in> set (session_names b) then []
               else Run (learner_session cl) ''learner'' (learner_cmd cl)
                    # (case evaluator_cmd cl of None \<Rightarrow> []
                       | Some ecmd \<Rightarrow> [Run (learner_session cl) ''evaluator'' ecmd]))
          @ ListSessionNames
            # (if agent_session cl \<in> set (session_names b) then []
               else (case get_agent_info agent_names agent_args of
                       Inl e \<Rightarrow> []
                     | Inr (names, args) \<Rightarrow>
                         ListWindowNames (agent_session cl)
                         # map (\<lambda>(n, a). Run (agent_session cl) n (agent_cmd cl @ '' '' @ a))
                             (zip names args)))
        \<and> infras_session cl \<in> set (session_names (fst (launch cl agent_names agent_args b)))
        \<and> learner_session cl \<in> set (session_names (fst (launch cl agent_names agent_args b)))
        \<and> (agent_session cl \<in> set (session_names (fst (launch cl agent_names agent_args b)))
              \<longleftrightarrow>
            agent_session cl \<in> set (session_names b)
            \<or> (\<exists>names args. get_agent_info agent_names agent_args = Inr (names, args)
                  \<and> names \<noteq> []))"
  proof (intro impI)
    assume "infras_session cl \<noteq> learner_session cl \<and> infras_session cl \<noteq> agent_session cl
        \<and> learner_session cl \<noteq> agent_session cl"
    then have d: "infras_session cl \<noteq> learner_session cl"
      "infras_session cl \<noteq> agent_session cl" "learner_session cl \<noteq> agent_session cl"
      by simp_all
    note t = launch_trace [OF d]
    show "calls (fst (launch cl agent_names agent_args b)) =
          calls b
          @ ListSessionNames
            # (if infras_session cl \<in> set (session_names b) then []
               else [Run (infras_session cl) (''redis-'' @ replay_name (config cl))
                       (redis_cmd (replay_port (config cl))),
                     Run (infras_session cl) (''redis-'' @ ps_name (config cl))
                       (redis_cmd (ps_port (config cl))),
                     Run (infras_session cl) ''redis-plex''
                       (redis_cmd (tensorplex_port (config cl))),
                     Run (infras_session cl) ''loggerplex''
                       (''python -u -m surreal.session.run_loggerplex_server ''
                          @ shlex_quote (json_dumps (config cl))),
                     Run (infras_session cl) ''tensorplex''
                       (''python -u -m surreal.session.run_tensorplex_server ''
                          @ shlex_quote (json_dumps (config cl))),
                     Run (infras_session cl) ''tensorboard'' (tensorboard_cmd cl)])
          @ ListSessionNames
            # (if learner_session cl \<in> set (session_names b) then []
               else Run (learner_session cl) ''learner'' (learner_cmd cl)
                    # (case evaluator_cmd cl of None \<Rightarrow> []
                       | Some ecmd \<Rightarrow> [Run (learner_session cl) ''evaluator'' ecmd]))
          @ ListSessionNames
            # (if agent_session cl \<in> set (session_names b) then []
               else (case get_agent_info agent_names agent_args of
                       Inl e \<Rightarrow> []
                     | Inr (names, args) \<Rightarrow>
                         ListWindowNames (agent_session cl)
                         # map (\<lambda>(n, a). Run (agent_session cl) n (agent_cmd cl @ '' '' @ a))
                             (zip names args)))
        \<and> infras_session cl \<in> set (session_names (fst (launch cl agent_names agent_args b)))
        \<and> learner_session cl \<in> set (session_names (fst (launch cl agent_names agent_args b)))
        \<and> (agent_session cl \<in> set (session_names (fst (launch cl agent_names agent_args b)))
              \<longleftrightarrow>
            agent_session cl \<in> set (session_names b)
            \<or> (\<exists>names args. get_agent_info agent_names agent_args = Inr (names, args)
                  \<and> names \<noteq> []))"
      using t(1) [of agent_names agent_args b] t(2) [of agent_names agent_args b]
        t(3) [of agent_names agent_args b] t(4) [of agent_names agent_args b]
      by (intro conjI)
  qed
qed

theorem launch_idempotent_witness:
  "(let b1 = fst (launch exp1 [PyStr ''agent0''] [ArgList [PyStr ''--id'', PyInt 0]]
                    empty_backend);
        b2 = fst (launch exp1 [PyStr ''agent0''] [ArgList [PyStr ''--id'', PyInt 0]] b1)
    in calls b2 = calls b1 @ [ListSessionNames, ListSessionNames, ListSessionNames]
       \<and> sessions b2 = sessions b1
       \<and> length (filter is_run (calls b1)) = 8)
   \<and> infras_session exp1 \<noteq> learner_session exp1
   \<and> infras_session exp1 \<noteq> agent_session exp1
   \<and> learner_session exp1 \<noteq> agent_session exp1
   \<and> calls (fst (launch exp1 [PyStr ''agent0''] [ArgList [PyStr ''--id'', PyInt 0]]
                    partial_backend)) =
       [ListSessionNames, ListSessionNames,
        Run ''learner-exp1'' ''learner'' ''python -u -m learner_main'', ListSessionNames]
   \<and> session_names (fst (launch exp1 [PyStr ''agent0''] [ArgList [PyStr ''--id'', PyInt 0]]
                            partial_backend)) =
       [''infras-exp1'', ''agent-exp1'', ''learner-exp1'']"
  using launch_idempotent [of exp1 "[PyStr ''agent0'']" "[ArgList [PyStr ''--id'', PyInt 0]]"
      empty_backend]
    launch_idempotent [of exp1 "[PyStr ''agent0'']" "[ArgList [PyStr ''--id'', PyInt 0]]"
      partial_backend]
  by (simp add: eval_lits partial_backend_def)

section \<open>Changing the fleet\<close>

lemma agent_args_loop_ok:
  "ArgOther \<notin> set as \<Longrightarrow> \<exists>cmds. agent_args_loop as = Inr cmds"
proof (induction as)
  case Nil
  then show ?case by simp
next
  case (Cons a as)
  then obtain cmds where "agent_args_loop as = Inr cmds" by auto
  moreover from Cons.prems have "\<exists>cmd. agent_arg a = Inr cmd" by (cases a) auto
  ultimately show ?case by auto
qed

lemma get_agent_info_ok:
  assumes "distinct (map str ns)" "length as = length ns" "ArgOther \<notin> set as"
  shows "\<exists>args. get_agent_info ns as = Inr (map str ns, args)"
proof -
  from assms(3) obtain cmds where "agent_args_loop as = Inr cmds"
    using agent_args_loop_ok by blast
  moreover have "length (map str ns) = length (remdups (map str ns))"
    using assms(1) by (simp only: distinct_remdups_id)
  ultimately show ?thesis
    using assms(2) by (simp add: get_agent_info_def Let_def)
qed

text \<open>
  C3. A rejected \<open>add_agents\<close> is atomic. If the requested names, as strings, contain a
  repeat, it fails with \<open>DuplicateAgentName\<close> and the backend, its trace included, is
  as before: no backend call was issued. If the request is otherwise well formed (as many
  argument specifications as names, each \<open>None\<close>, a string or a list) and a requested
  name is a window of the agent session, it fails with \<open>DuplicateRunningAgent\<close> after
  the one listing of the agent session's windows; sessions, windows and panes are as
  before. Whatever the reason of a rejection, the backend differs from the one before
  only by trace entries that create no window.
\<close>

theorem add_agents_rejected_atomic:
  "(\<not> distinct (map str agent_names) \<longrightarrow>
      add_agents cl agent_names agent_args b = (b, Inl DuplicateAgentName))
   \<and> (distinct (map str agent_names) \<and> length agent_args = length agent_names
        \<and> ArgOther \<notin> set agent_args
        \<and> set (map str agent_names) \<inter> set (window_names b (agent_session cl)) \<noteq> {} \<longrightarrow>
      add_agents cl agent_names agent_args b =
        (b\<lparr>calls := calls b @ [ListWindowNames (agent_session cl)]\<rparr>, Inl DuplicateRunningAgent))
   \<and> (\<forall>e. snd (add_agents cl agent_names agent_args b) = Inl e \<longrightarrow>
        (\<exists>rest. fst (add_agents cl agent_names agent_args b) = b\<lparr>calls := calls b @ rest\<rparr>
           \<and> (\<forall>c \<in> set rest. \<not> is_run c)))"
proof (intro conjI impI allI)
  assume "\<not> distinct (map str agent_names)"
  then show "add_agents cl agent_names agent_args b = (b, Inl DuplicateAgentName)"
    by (simp add: add_agents_unfold get_agent_info_duplicate)
next
  assume a: "distinct (map str agent_names) \<and> length agent_args = length agent_names
        \<and> ArgOther \<notin> set agent_args
        \<and> set (map str agent_names) \<inter> set (window_names b (agent_session cl)) \<noteq> {}"
  then obtain args where "get_agent_info agent_names agent_args = Inr (map str agent_names, args)"
    using get_agent_info_ok by blast
  with a show "add_agents cl agent_names agent_args b =
        (b\<lparr>calls := calls b @ [ListWindowNames (agent_session cl)]\<rparr>, Inl DuplicateRunningAgent)"
    by (auto simp: add_agents_unfold)
next
  fix e
  assume e: "snd (add_agents cl agent_names agent_args b) = Inl e"
  show "\<exists>rest. fst (add_agents cl agent_names agent_args b) = b\<lparr>calls := calls b @ rest\<rparr>
           \<and> (\<forall>c \<in> set rest. \<not> is_run c)"
  proof (cases "get_agent_info agent_names agent_args")
    case (Inl e')
    then have "fst (add_agents cl agent_names agent_args b) = b\<lparr>calls := calls b @ []\<rparr>"
      by (simp add: add_agents_unfold)
    then show ?thesis by (metis empty_iff list.set(1))
  next
    case (Inr p)
    with e have "fst (add_agents cl agent_names agent_args b) =
        b\<lparr>calls := calls b @ [ListWindowNames (agent_session cl)]\<rparr>"
      by (cases p) (auto simp: add_agents_unfold split: if_splits)
    moreover have "\<forall>c \<in> set [ListWindowNames (agent_session cl)]. \<not> is_run c"
      by (simp add: is_run_def)
    ultimately show ?thesis by blast
  qed
qed

theorem add_agents_rejected_atomic_witness:
  "add_agents exp1 [PyStr ''a'', PyStr ''a''] [ArgNone, ArgNone] empty_backend =
     (empty_backend, Inl DuplicateAgentName)
   \<and> (let b1 = fst (add_agents exp1 [PyStr ''w1''] [ArgStr ''--id 1''] empty_backend)
       in window_names b1 ''agent-exp1'' = [''w1'']
          \<and> add_agents exp1 [PyStr ''w1''] [ArgStr ''--id 2''] b1 =
              (b1\<lparr>calls := calls b1 @ [ListWindowNames ''agent-exp1'']\<rparr>,
               Inl DuplicateRunningAgent))"
  using add_agents_rejected_atomic [of "[PyStr ''a'', PyStr ''a'']" exp1 "[ArgNone, ArgNone]"
      empty_backend]
    add_agents_rejected_atomic [of "[PyStr ''w1'']" exp1 "[ArgStr ''--id 2'']"
      "fst (add_agents exp1 [PyStr ''w1''] [ArgStr ''--id 1''] empty_backend)"]
  by (simp add: eval_lits)

lemma calls_kill_loop:
  "calls (foldl (\<lambda>b name. tmux_kill b s (Some (str name))) b ns) =
     calls b @ map (\<lambda>n. Kill s (Some (str n))) ns"
  by (induction ns arbitrary: b) auto

lemma window_names_kill_loop:
  "window_names (foldl (\<lambda>b name. tmux_kill b s (Some (str name))) b ns) s =
     filter (\<lambda>w. w \<notin> set (map str ns)) (window_names b s)"
proof (induction ns arbitrary: b)
  case Nil
  then show ?case by simp
next
  case (Cons n ns)
  show ?case
    by (simp add: Cons.IH window_names_kill_window removeAll_filter_not_eq filter_filter conj_commute
        cong: filter_cong)
       (metis)
qed

lemma sessions_kill_loop_absent:
  "set (map str ns) \<inter> set (window_names b s) = {} \<Longrightarrow>
     sessions (foldl (\<lambda>b name. tmux_kill b s (Some (str name))) b ns) = sessions b"
proof (induction ns arbitrary: b)
  case Nil
  then show ?case by simp
next
  case (Cons n ns)
  from Cons.prems have n: "str n \<notin> set (window_names b s)" by auto
  then have same: "sessions (tmux_kill b s (Some (str n))) = sessions b"
    by (rule sessions_kill_absent_window)
  then have "window_names (tmux_kill b s (Some (str n))) s = window_names b s"
    by (simp add: window_names_def windows_of_def)
  with Cons.prems have "set (map str ns) \<inter> set (window_names (tmux_kill b s (Some (str n))) s) = {}"
    by auto
  from Cons.IH [OF this] same show ?case by simp
qed

text \<open>
  C9. \<open>kill_agents\<close> fails with \<open>FleetNotLaunched\<close> when the agent session is not among
  the backend's sessions, after the one session listing. Otherwise it succeeds and
  issues, after that listing, exactly one window kill per given name, in order, each
  against the agent session; and when none of the names is a window of the agent
  session, the sessions and their windows are as before.
\<close>

theorem kill_agents_cases:
  "(agent_session cl \<notin> set (session_names b) \<longrightarrow>
      kill_agents cl agent_names b =
        (b\<lparr>calls := calls b @ [ListSessionNames]\<rparr>, Inl FleetNotLaunched))
   \<and> (agent_session cl \<in> set (session_names b) \<longrightarrow>
        snd (kill_agents cl agent_names b) = Inr ()
        \<and> calls (fst (kill_agents cl agent_names b)) =
            calls b @ ListSessionNames
              # map (\<lambda>n. Kill (agent_session cl) (Some (str n))) agent_names
        \<and> (set (map str agent_names) \<inter> set (window_names b (agent_session cl)) = {} \<longrightarrow>
             sessions (fst (kill_agents cl agent_names b)) = sessions b))"
  by (simp add: kill_agents_def is_launched_agent calls_kill_loop sessions_kill_loop_absent
      window_names_def windows_of_def del: set_map)

theorem kill_agents_cases_witness:
  "kill_agents exp1 [PyStr ''agent0''] empty_backend =
     (empty_backend\<lparr>calls := [ListSessionNames]\<rparr>, Inl FleetNotLaunched)
   \<and> (let b1 = fst (add_agents exp1 [PyStr ''w1''] [ArgStr ''--id 1''] empty_backend)
       in snd (kill_agents exp1 [PyStr ''ghost'', PyInt 7] b1) = Inr ()
          \<and> calls (fst (kill_agents exp1 [PyStr ''ghost'', PyInt 7] b1)) =
              calls b1 @ [ListSessionNames, Kill ''agent-exp1'' (Some ''ghost''),
                          Kill ''agent-exp1'' (Some ''7'')]
          \<and> sessions (fst (kill_agents exp1 [PyStr ''ghost'', PyInt 7] b1)) = sessions b1
          \<and> window_names b1 ''agent-exp1'' = [''w1''])"
  using kill_agents_cases [of exp1 empty_backend "[PyStr ''agent0'']"]
    kill_agents_cases [of exp1 "fst (add_agents exp1 [PyStr ''w1''] [ArgStr ''--id 1''] empty_backend)"
      "[PyStr ''ghost'', PyInt 7]"]
  by (simp add: eval_lits)

section \<open>The end-to-end scenario\<close>

lemma window_names_run_agents:
  assumes "distinct (map fst xs)" "set (map fst xs) \<inter> set (window_names b (agent_session cl)) = {}"
  shows "window_names (run_agents cl b xs) (agent_session cl) =
           window_names b (agent_session cl) @ map fst xs"
  using assms
proof (induction xs arbitrary: b)
  case Nil
  then show ?case by simp
next
  case (Cons x xs)
  obtain n a where x: "x = (n, a)" by (cases x)
  define b' where "b' = tmux_run b (agent_session cl) n (agent_cmd cl @ '' '' @ a)"
  have step: "run_agents cl b (x # xs) = run_agents cl b' xs"
    by (simp add: run_agents_def x b'_def)
  from Cons.prems x have n: "n \<notin> set (window_names b (agent_session cl))" by auto
  then have w: "window_names b' (agent_session cl) = window_names b (agent_session cl) @ [n]"
    by (simp add: b'_def window_names_tmux_run)
  from Cons.prems x have "distinct (map fst xs)"
    "set (map fst xs) \<inter> set (window_names b' (agent_session cl)) = {}"
    unfolding w by auto
  from Cons.IH [OF this] show ?case
    unfolding step by (simp add: x w)
qed

lemma is_launched_after_killall:
  "s \<in> {infras_session cl, learner_session cl, agent_session cl} \<Longrightarrow>
     s \<notin> set (session_names (killall cl b))"
  by (auto simp: killall_def session_names_kill_session)

lemma get_agent_info_agent0:
  "get_agent_info [PyStr ''agent0''] [ArgList [PyStr ''--id'', PyInt 0]] =
     Inr ([''agent0''], [''--id 0''])"
  by (simp add: get_agent_info_def str_int_def str_nat.simps)

lemma get_agent_info_agent1:
  "get_agent_info [PyStr ''agent1''] [ArgStr ''--id 1''] = Inr ([''agent1''], [''--id 1''])"
  by (simp add: get_agent_info_def)

lemma launch_from_absent:
  assumes cl: "cl = make_cluster name cfg ac lc ec"
    and absent: "infras_session cl \<notin> set (session_names b)"
      "learner_session cl \<notin> set (session_names b)"
      "agent_session cl \<notin> set (session_names b)"
    and info: "get_agent_info ns as = Inr (names, args)" "names \<noteq> []"
  shows "snd (launch cl ns as b) = Inr ()"
    and "set (session_names (fst (launch cl ns as b))) =
           set (session_names b) \<union> {infras_session cl, learner_session cl, agent_session cl}"
    and "window_names (fst (launch cl ns as b)) (agent_session cl) = names"
proof -
  have distinct: "infras_session cl \<noteq> learner_session cl" "infras_session cl \<noteq> agent_session cl"
    "learner_session cl \<noteq> agent_session cl"
    by (simp_all add: cl make_cluster_def)
  define a1 where "a1 = b\<lparr>calls := calls b @ [ListSessionNames]\<rparr>"
  define a2 where "a2 = fst (launch_infras cl a1)"
  define a3 where "a3 = a2\<lparr>calls := calls a2 @ [ListSessionNames]\<rparr>"
  define a4 where "a4 = launch_learner cl a3"
  define a5 where "a5 = a4\<lparr>calls := calls a4 @ [ListSessionNames]\<rparr>"
  have S2: "set (session_names a2) = insert (infras_session cl) (set (session_names b))"
    by (simp add: a2_def a1_def)
  have S4: "set (session_names a4) = insert (learner_session cl) (set (session_names a2))"
    by (simp add: a4_def a3_def)
  have not2: "learner_session cl \<notin> set (session_names a2)"
    using absent distinct by (simp add: S2)
  have not4: "agent_session cl \<notin> set (session_names a4)"
    using absent distinct by (simp add: S4 S2)
  have eq: "launch cl ns as b = add_agents cl ns as a5"
    unfolding launch_unfold Let_def
    unfolding a1_def [symmetric]
    unfolding if_not_P [OF absent(1)] a2_def [symmetric]
    unfolding a3_def [symmetric] if_not_P [OF not2] a4_def [symmetric]
    unfolding a5_def [symmetric] if_not_P [OF not4]
    by (rule refl)
  have w5: "window_names a5 (agent_session cl) = []"
    using not4 window_names_absent [of "agent_session cl" a4] by (simp add: a5_def)
  have len: "distinct names" "length args = length names"
    using get_agent_info_Inr [OF info(1)] by blast+
  then have z: "map fst (zip names args) = names" "zip names args \<noteq> []"
    using info(2) by (auto simp: zip_eq_Nil_iff)
  have add: "add_agents cl ns as a5 =
      (run_agents cl (a5\<lparr>calls := calls a5 @ [ListWindowNames (agent_session cl)]\<rparr>)
         (zip names args), Inr ())"
    by (simp add: add_agents_unfold info(1) w5)
  show "snd (launch cl ns as b) = Inr ()"
    unfolding eq add by simp
  show "set (session_names (fst (launch cl ns as b))) =
           set (session_names b) \<union> {infras_session cl, learner_session cl, agent_session cl}"
    unfolding eq add using z(2) by (auto simp: set_session_names_run_agents a5_def S4 S2)
  show "window_names (fst (launch cl ns as b)) (agent_session cl) = names"
    unfolding eq add
    using window_names_run_agents [of "zip names args"
        "a5\<lparr>calls := calls a5 @ [ListWindowNames (agent_session cl)]\<rparr>" cl] len(1) w5
    by (simp add: z(1))
qed

text \<open>
  C6, with the tag \<open>infras\<close> of the code. For a cluster built from any cluster name and a
  backend with none of the three sessions: after
  \<open>launch(["agent0"], [["--id", 0]])\<close> the three \<open>is_launched\<close> queries return true and
  the running agents are \<open>["agent0"]\<close>; after \<open>add_agents(["agent1"], ["--id 1"])\<close> they
  are \<open>["agent0", "agent1"]\<close>; after \<open>kill_agents(["agent0"])\<close> they are \<open>["agent1"]\<close>;
  after \<open>killall()\<close> the three \<open>is_launched\<close> queries return false. No step fails. The
  queries only add to the trace, so each is evaluated on the state its step left.
\<close>

theorem end_to_end_scenario:
  assumes cl: "cl = make_cluster name cfg ac lc ec"
    and absent: "infras_session cl \<notin> set (session_names b)"
      "learner_session cl \<notin> set (session_names b)"
      "agent_session cl \<notin> set (session_names b)"
    and s1: "(b1, r1) = launch cl [PyStr ''agent0''] [ArgList [PyStr ''--id'', PyInt 0]] b"
    and s2: "(b2, r2) = add_agents cl [PyStr ''agent1''] [ArgStr ''--id 1''] b1"
    and s3: "(b3, r3) = kill_agents cl [PyStr ''agent0''] b2"
    and s4: "b4 = killall cl b3"
  shows "r1 = Inr ()
    \<and> snd (is_launched cl ''infras'' b1) = Inr True
    \<and> snd (is_launched cl ''learner'' b1) = Inr True
    \<and> snd (is_launched cl ''agent'' b1) = Inr True
    \<and> snd (get_running_agents cl b1) = [''agent0'']
    \<and> r2 = Inr ()
    \<and> snd (get_running_agents cl b2) = [''agent0'', ''agent1'']
    \<and> r3 = Inr ()
    \<and> snd (get_running_agents cl b3) = [''agent1'']
    \<and> snd (is_launched cl ''infras'' b4) = Inr False
    \<and> snd (is_launched cl ''learner'' b4) = Inr False
    \<and> snd (is_launched cl ''agent'' b4) = Inr False"
proof -
  note first = launch_from_absent [OF cl absent get_agent_info_agent0]
  have b1: "b1 = fst (launch cl [PyStr ''agent0''] [ArgList [PyStr ''--id'', PyInt 0]] b)"
    and r1: "r1 = snd (launch cl [PyStr ''agent0''] [ArgList [PyStr ''--id'', PyInt 0]] b)"
    using s1 by (metis fst_conv, metis snd_conv)
  have R1: "r1 = Inr ()"
    using first(1) r1 by simp
  have S1: "set (session_names b1) =
      set (session_names b) \<union> {infras_session cl, learner_session cl, agent_session cl}"
    using first(2) b1 by simp
  have W1: "window_names b1 (agent_session cl) = [''agent0'']"
    using first(3) b1 by simp
  have add: "add_agents cl [PyStr ''agent1''] [ArgStr ''--id 1''] b1 =
      (run_agents cl (b1\<lparr>calls := calls b1 @ [ListWindowNames (agent_session cl)]\<rparr>)
         [(''agent1'', ''--id 1'')], Inr ())"
    by (simp add: add_agents_unfold get_agent_info_agent1 W1)
  have R2: "r2 = Inr ()" and b2: "b2 = run_agents cl
      (b1\<lparr>calls := calls b1 @ [ListWindowNames (agent_session cl)]\<rparr>) [(''agent1'', ''--id 1'')]"
    using s2 unfolding add by simp_all
  have W2: "window_names b2 (agent_session cl) = [''agent0'', ''agent1'']"
    unfolding b2
    using window_names_run_agents [of "[(''agent1'', ''--id 1'')]"
        "b1\<lparr>calls := calls b1 @ [ListWindowNames (agent_session cl)]\<rparr>" cl]
    by (simp add: W1)
  have S2: "agent_session cl \<in> set (session_names b2)"
    unfolding b2 by (simp add: set_session_names_run_agents)
  have kill: "kill_agents cl [PyStr ''agent0''] b2 =
      (tmux_kill (b2\<lparr>calls := calls b2 @ [ListSessionNames]\<rparr>) (agent_session cl)
         (Some ''agent0''), Inr ())"
    using S2 by (simp add: kill_agents_def is_launched_agent)
  have R3: "r3 = Inr ()" and b3: "b3 = tmux_kill (b2\<lparr>calls := calls b2 @ [ListSessionNames]\<rparr>)
      (agent_session cl) (Some ''agent0'')"
    using s3 unfolding kill by simp_all
  have W3: "window_names b3 (agent_session cl) = [''agent1'']"
    unfolding b3 by (simp add: window_names_kill_window W2)
  have down: "infras_session cl \<notin> set (session_names b4)"
    "learner_session cl \<notin> set (session_names b4)" "agent_session cl \<notin> set (session_names b4)"
    unfolding s4 by (simp_all add: is_launched_after_killall)
  show ?thesis
    using R1 R2 R3 S1 W1 W2 W3 down
    by (simp add: is_launched_infras is_launched_learner is_launched_agent
        get_running_agents_def list_window_names_def)
qed

theorem end_to_end_scenario_witness:
  "(let b1 = fst (launch exp1 [PyStr ''agent0''] [ArgList [PyStr ''--id'', PyInt 0]]
                    empty_backend);
        b2 = fst (add_agents exp1 [PyStr ''agent1''] [ArgStr ''--id 1''] b1);
        b3 = fst (kill_agents exp1 [PyStr ''agent0''] b2);
        b4 = killall exp1 b3
    in infras_session exp1 \<notin> set (session_names empty_backend)
       \<and> learner_session exp1 \<notin> set (session_names empty_backend)
       \<and> agent_session exp1 \<notin> set (session_names empty_backend)
       \<and> snd (is_launched exp1 ''infras'' b1) = Inr True
       \<and> snd (is_launched exp1 ''learner'' b1) = Inr True
       \<and> snd (is_launched exp1 ''agent'' b1) = Inr True
       \<and> snd (get_running_agents exp1 b1) = [''agent0'']
       \<and> snd (get_running_agents exp1 b2) = [''agent0'', ''agent1'']
       \<and> snd (get_running_agents exp1 b3) = [''agent1'']
       \<and> snd (is_launched exp1 ''infras'' b4) = Inr False
       \<and> snd (is_launched exp1 ''learner'' b4) = Inr False
       \<and> snd (is_launched exp1 ''agent'' b4) = Inr False)"
proof -
  have absent: "infras_session exp1 \<notin> set (session_names empty_backend)"
    "learner_session exp1 \<notin> set (session_names empty_backend)"
    "agent_session exp1 \<notin> set (session_names empty_backend)"
    by (simp_all add: empty_backend_def session_names_def)
  show ?thesis
    using absent
      end_to_end_scenario [OF exp1_def absent prod.collapse prod.collapse prod.collapse refl]
    by (simp add: Let_def)
qed

text \<open>
  C6, as the claim states it: \<open>is_launched("infra")\<close> does not return true after the
  launch, it fails with \<open>InvalidGroup\<close>, since \<open>infra\<close> is not a tag of the code.
\<close>

theorem end_to_end_infra_counterexample:
  "snd (is_launched exp1 ''infra''
          (fst (launch exp1 [PyStr ''agent0''] [ArgList [PyStr ''--id'', PyInt 0]]
                  empty_backend))) = Inl InvalidGroup
   \<and> snd (is_launched exp1 ''infra''
          (fst (launch exp1 [PyStr ''agent0''] [ArgList [PyStr ''--id'', PyInt 0]]
                  empty_backend))) \<noteq> Inr True"
  by (simp add: is_launched_def session_group_def)

section \<open>Inspection: the loops in closed form\<close>

lemma get_stdout_body_step:
  "get_stdout_body g w h sess win (b, od) =
     (if selected g w sess win
      then (b\<lparr>calls := calls b @ [GetStdout sess win h]\<rparr>,
            AList.update (slot_key sess win) (py_join [CHR 0x0A] (pane_lines b sess win h)) od)
      else (b, od))"
  by (simp add: get_stdout_body_def selected_def tmux_get_stdout_def)

lemma check_error_body_step:
  "check_error_body sess win (b, od) =
     (b\<lparr>calls := calls b @ [CheckError sess win 100]\<rparr>,
      foldl (\<lambda>od (k, v). AList.update k v od) od
        (map (Pair (slot_key sess win)) (error_text (pane_error b sess win 100))))"
  by (simp add: check_error_body_def tmux_check_error_def error_text_def split: option.splits)

lemma get_stdout_inner:
  "foldl (\<lambda>st win. get_stdout_body g w h sess win st) (b, od) wins =
     (b\<lparr>calls := calls b @ map (\<lambda>win. GetStdout sess win h) (filter (selected g w sess) wins)\<rparr>,
      foldl (\<lambda>od (k, v). AList.update k v od) od
        (map (\<lambda>win. (slot_key sess win, py_join [CHR 0x0A] (pane_lines b sess win h)))
           (filter (selected g w sess) wins)))"
proof (induction wins arbitrary: b od)
  case Nil
  then show ?case by simp
next
  case (Cons win wins)
  show ?case
    by (simp add: get_stdout_body_step Cons.IH)
qed

lemma check_error_inner:
  "foldl (\<lambda>st win. check_error_body sess win st) (b, od) wins =
     (b\<lparr>calls := calls b @ map (\<lambda>win. CheckError sess win 100) wins\<rparr>,
      foldl (\<lambda>od (k, v). AList.update k v od) od
        (concat (map (\<lambda>win. map (Pair (slot_key sess win)) (error_text (pane_error b sess win 100)))
           wins)))"
proof (induction wins arbitrary: b od)
  case Nil
  then show ?case by simp
next
  case (Cons win wins)
  show ?case
    by (simp add: check_error_body_step Cons.IH)
qed

lemma iterate_windows_get_stdout:
  "iterate_windows (get_stdout_body g w h) sess (b, od) =
     (b\<lparr>calls := calls b @ ListWindowNames sess
          # map (\<lambda>win. GetStdout sess win h) (filter (selected g w sess) (window_names b sess))\<rparr>,
      foldl (\<lambda>od (k, v). AList.update k v od) od
        (map (\<lambda>win. (slot_key sess win, py_join [CHR 0x0A] (pane_lines b sess win h)))
           (filter (selected g w sess) (window_names b sess))))"
  by (simp add: iterate_windows_def list_window_names_def get_stdout_inner)

lemma iterate_windows_check_error:
  "iterate_windows check_error_body sess (b, od) =
     (b\<lparr>calls := calls b @ ListWindowNames sess
          # map (\<lambda>win. CheckError sess win 100) (window_names b sess)\<rparr>,
      foldl (\<lambda>od (k, v). AList.update k v od) od
        (concat (map (\<lambda>win. map (Pair (slot_key sess win)) (error_text (pane_error b sess win 100)))
           (window_names b sess))))"
  by (simp add: iterate_windows_def list_window_names_def check_error_inner)

lemma get_stdout_outer:
  "foldl (\<lambda>st sess. iterate_windows (get_stdout_body g w h) sess st) (b, od) ss =
     (b\<lparr>calls := calls b @ concat (map (\<lambda>sess. ListWindowNames sess
              # map (\<lambda>win. GetStdout sess win h) (filter (selected g w sess) (window_names b sess))) ss)\<rparr>,
      foldl (\<lambda>od (k, v). AList.update k v od) od
        (map (\<lambda>(sess, win). (slot_key sess win, py_join [CHR 0x0A] (pane_lines b sess win h)))
           (filter (\<lambda>(sess, win). selected g w sess win)
              (concat (map (\<lambda>sess. map (Pair sess) (window_names b sess)) ss)))))"
proof (induction ss arbitrary: b od)
  case Nil
  then show ?case by simp
next
  case (Cons s ss)
  show ?case
    by (simp add: iterate_windows_get_stdout Cons.IH filter_map comp_def)
qed

lemma check_error_outer:
  "foldl (\<lambda>st sess. iterate_windows check_error_body sess st) (b, od) ss =
     (b\<lparr>calls := calls b @ concat (map (\<lambda>sess. ListWindowNames sess
              # map (\<lambda>win. CheckError sess win 100) (window_names b sess)) ss)\<rparr>,
      foldl (\<lambda>od (k, v). AList.update k v od) od
        (concat (map (\<lambda>(sess, win). map (Pair (slot_key sess win))
                        (error_text (pane_error b sess win 100)))
           (concat (map (\<lambda>sess. map (Pair sess) (window_names b sess)) ss)))))"
proof (induction ss arbitrary: b od)
  case Nil
  then show ?case by simp
next
  case (Cons s ss)
  show ?case
    by (simp add: iterate_windows_check_error Cons.IH comp_def map_concat)
qed

lemma get_stdout_result:
  "get_stdout cl group_tag window history b =
     (case (case group_tag of
              None \<Rightarrow> if window \<noteq> None then Inl InvalidArgument else Inr None
            | Some g \<Rightarrow> (case session_group cl g of Inl e \<Rightarrow> Inl e | Inr s \<Rightarrow> Inr (Some s))) of
        Inl e \<Rightarrow> (b, Inl e)
      | Inr group1 \<Rightarrow>
          (let window1 = (case window of
                            None \<Rightarrow> None
                          | Some w \<Rightarrow> if truthy w then Some (PyStr (str w)) else Some w)
           in (b\<lparr>calls := calls b @ concat (map (\<lambda>sess. ListWindowNames sess
                    # map (\<lambda>win. GetStdout sess win history)
                        (filter (selected group1 window1 sess) (window_names b sess)))
                  (iterate_sessions cl))\<rparr>,
               Inr (od_of_list
                 (map (\<lambda>(sess, win). (slot_key sess win,
                                        py_join [CHR 0x0A] (pane_lines b sess win history)))
                    (filter (\<lambda>(sess, win). selected group1 window1 sess win)
                       (all_windows cl b)))))))"
  by (simp add: get_stdout_def iterate_all_windows_def get_stdout_outer od_of_list_def
      all_windows_def split: sum.splits)

lemma check_error_result:
  "check_error cl b =
     (b\<lparr>calls := calls b @ concat (map (\<lambda>sess. ListWindowNames sess
              # map (\<lambda>win. CheckError sess win 100) (window_names b sess))
            (iterate_sessions cl))\<rparr>,
      od_of_list
        (concat (map (\<lambda>(sess, win). map (Pair (slot_key sess win))
                        (error_text (pane_error b sess win 100)))
           (all_windows cl b))))"
  by (simp add: check_error_def iterate_all_windows_def check_error_outer od_of_list_def
      all_windows_def)

lemma keys_od_of_list: "map fst (od_of_list kvs) = rev (remdups (rev (map fst kvs)))"
proof (induction kvs rule: rev_induct)
  case Nil
  then show ?case by (simp add: od_of_list_def)
next
  case (snoc kv kvs)
  obtain k v where kv: "kv = (k, v)" by (cases kv)
  have step: "od_of_list (kvs @ [kv]) = AList.update k v (od_of_list kvs)"
    by (simp add: od_of_list_def kv)
  have "set (map fst (od_of_list kvs)) = set (map fst kvs)"
    unfolding snoc.IH by simp
  then show ?case
    unfolding step update_keys snoc.IH by (simp add: kv)
qed

lemma update_fresh: "k \<notin> fst ` set al \<Longrightarrow> AList.update k v al = al @ [(k, v)]"
  by (induction al) auto

lemma od_of_list_distinct: "distinct (map fst kvs) \<Longrightarrow> od_of_list kvs = kvs"
proof (induction kvs rule: rev_induct)
  case Nil
  then show ?case by (simp add: od_of_list_def)
next
  case (snoc kv kvs)
  obtain k v where kv: "kv = (k, v)" by (cases kv)
  have step: "od_of_list (kvs @ [kv]) = AList.update k v (od_of_list kvs)"
    by (simp add: od_of_list_def kv)
  from snoc.prems have "distinct (map fst kvs)" "k \<notin> fst ` set kvs"
    by (auto simp: kv)
  with snoc.IH show ?case
    unfolding step by (simp add: update_fresh kv)
qed

section \<open>Inspection: filters and errors\<close>

lemma get_stdout_invalid_argument:
  "get_stdout cl None (Some w) history b = (b, Inl InvalidArgument)"
  by (simp add: get_stdout_def)

text \<open>
  What the window filter of \<open>get_stdout\<close> does, for a valid group: a truthy window
  restricts the result to the slots of the group's session whose window is \<open>str(window)\<close>;
  a window that is given but falsy restricts it to the group's session only.
\<close>

lemma str_nat_nonempty: "str_nat n \<noteq> []"
  by (subst str_nat.simps) simp

lemma truthy_str_nonempty: "truthy w \<Longrightarrow> str w \<noteq> []"
  by (cases w) (simp_all add: str_int_def str_nat_nonempty)

lemma get_stdout_truthy_window:
  assumes "session_group cl g = Inr s" "s \<noteq> []" "truthy w"
  shows "snd (get_stdout cl (Some g) (Some w) history b) =
     Inr (od_of_list
            (map (\<lambda>(sess, win). (slot_key sess win,
                                   py_join [CHR 0x0A] (pane_lines b sess win history)))
               (filter (\<lambda>(sess, win). sess = s \<and> win = str w) (all_windows cl b))))"
proof -
  have sel: "selected (Some s) (Some (PyStr (str w))) = (\<lambda>sess win. sess = s \<and> win = str w)"
    using assms(2) truthy_str_nonempty [OF assms(3)] by (intro ext) (auto simp: selected_def)
  show ?thesis
    by (simp add: get_stdout_result assms(1,3) Let_def sel)
qed

lemma get_stdout_falsy_window:
  assumes "session_group cl g = Inr s" "s \<noteq> []" "\<not> truthy w"
  shows "snd (get_stdout cl (Some g) (Some w) history b) =
     Inr (od_of_list
            (map (\<lambda>(sess, win). (slot_key sess win,
                                   py_join [CHR 0x0A] (pane_lines b sess win history)))
               (filter (\<lambda>(sess, win). sess = s) (all_windows cl b))))"
proof -
  have sel: "selected (Some s) (Some w) = (\<lambda>sess win. sess = s)"
    using assms(2,3) by (intro ext) (auto simp: selected_def)
  show ?thesis
    by (simp add: get_stdout_result assms(1,3) Let_def sel)
qed

text \<open>
  C7, at the input where the code departs from it. Two agents named \<open>0\<close> and \<open>1\<close> are
  running (names are converted with \<open>str\<close>). \<open>get_stdout('agent', 0)\<close> returns the panes
  of both, not only the pane of window \<open>0\<close>: the window filter is guarded by the
  truthiness of \<open>window\<close>, and \<open>0\<close> is falsy. \<open>get_stdout('agent', 1)\<close> returns the pane
  of window \<open>1\<close> alone.
\<close>

theorem get_stdout_window_zero:
  "(let b = fst (add_agents exp1 [PyInt 0, PyInt 1] [ArgNone, ArgNone] empty_backend)
    in snd (get_running_agents exp1 b) = [''0'', ''1'']
       \<and> snd (get_stdout exp1 (Some ''agent'') (Some (PyInt 0)) 0 b) =
           Inr [(''agent-exp1:0'', []), (''agent-exp1:1'', [])]
       \<and> snd (get_stdout exp1 (Some ''agent'') (Some (PyInt 1)) 0 b) =
           Inr [(''agent-exp1:1'', [])])"
  by (simp add: eval_lits)

text \<open>
  C8, as the claim states it: on a backend where the agent and the learner both show an
  error, \<open>check_error\<close> reports both, while the check restricted to the group \<open>agent\<close>
  would report the agent alone. \<open>check_error\<close> of the source takes no argument.
\<close>

theorem check_error_unfiltered_counterexample:
  "snd (check_error exp1 crashed_backend) =
     [(''agent-exp1:agent0'', ''Traceback''), (''learner-exp1:learner'', ''Traceback'')]
   \<and> check_error_spec exp1 (Some ''agent'') None crashed_backend =
       [(''agent-exp1:agent0'', ''Traceback'')]
   \<and> snd (check_error exp1 crashed_backend)
       \<noteq> check_error_spec exp1 (Some ''agent'') None crashed_backend"
  by (simp add: eval_lits crashed_backend_def check_error_spec_def all_windows_def od_of_list_def
      error_text_def)

text \<open>
  C8, as the code has it. \<open>check_error()\<close> takes no group and no window. It lists the
  windows of the agent, learner and infras sessions in this order and scans every listed
  window with scroll-back depth 100, which is the iteration of \<open>get_stdout\<close> called with
  no group and no window; it returns the ordered mapping, keyed \<open>session:window\<close>, of
  exactly the slots whose scan returned a non-empty error text, which is the check the
  spec words with no group and no window requested.
\<close>

theorem check_error_all_windows:
  "check_error cl b =
     (b\<lparr>calls := calls b @ concat (map (\<lambda>sess. ListWindowNames sess
              # map (\<lambda>win. CheckError sess win 100) (window_names b sess))
            [agent_session cl, learner_session cl, infras_session cl])\<rparr>,
      od_of_list
        (concat (map (\<lambda>(sess, win). map (Pair (slot_key sess win))
                        (error_text (pane_error b sess win 100)))
           (all_windows cl b))))
   \<and> fst (get_stdout cl None None history b) =
       b\<lparr>calls := calls b @ concat (map (\<lambda>sess. ListWindowNames sess
              # map (\<lambda>win. GetStdout sess win history) (window_names b sess))
            [agent_session cl, learner_session cl, infras_session cl])\<rparr>
   \<and> snd (check_error cl b) = check_error_spec cl None None b"
  by (simp add: check_error_result get_stdout_result iterate_sessions_def selected_def
      check_error_spec_def)

theorem check_error_all_windows_witness:
  "snd (check_error exp1 crashed_backend) = check_error_spec exp1 None None crashed_backend
   \<and> check_error_spec exp1 None None crashed_backend =
       [(''agent-exp1:agent0'', ''Traceback''), (''learner-exp1:learner'', ''Traceback'')]
   \<and> calls (fst (check_error exp1 crashed_backend)) =
       [ListWindowNames ''agent-exp1'', CheckError ''agent-exp1'' ''agent0'' 100,
        ListWindowNames ''learner-exp1'', CheckError ''learner-exp1'' ''learner'' 100,
        ListWindowNames ''infras-exp1'']"
  using check_error_all_windows [of exp1 crashed_backend 0]
  by (simp add: eval_lits crashed_backend_def check_error_spec_def all_windows_def
      od_of_list_def error_text_def)

section \<open>Inspection: the order of the entries\<close>

lemma all_windows_slots:
  "all_windows cl b =
     map (Pair (agent_session cl)) (window_names b (agent_session cl))
     @ map (Pair (learner_session cl)) (window_names b (learner_session cl))
     @ map (Pair (infras_session cl)) (window_names b (infras_session cl))"
  by (simp add: all_windows_def iterate_sessions_def)

lemma slot_keys_distinct:
  assumes "cl = make_cluster name cfg ac lc ec"
    and "distinct (window_names b (agent_session cl))"
      "distinct (window_names b (learner_session cl))"
      "distinct (window_names b (infras_session cl))"
  shows "distinct (map (\<lambda>(sess, win). slot_key sess win) (all_windows cl b))"
proof -
  have inj: "inj (slot_key s)" for s
    by (simp add: inj_def slot_key_def)
  have names: "agent_session cl = ''agent-'' @ name" "learner_session cl = ''learner-'' @ name"
    "infras_session cl = ''infras-'' @ name"
    by (simp_all add: assms(1) make_cluster_def)
  have d: "distinct (map (slot_key s) ws)" if "distinct ws" for s ws
    using that inj [of s] by (auto simp: distinct_map inj_on_def inj_def)
  have "map (\<lambda>(sess, win). slot_key sess win) (all_windows cl b) =
      map (slot_key (agent_session cl)) (window_names b (agent_session cl))
      @ map (slot_key (learner_session cl)) (window_names b (learner_session cl))
      @ map (slot_key (infras_session cl)) (window_names b (infras_session cl))"
    by (simp add: all_windows_slots comp_def)
  moreover have "distinct \<dots>"
    using d [OF assms(2)] d [OF assms(3)] d [OF assms(4)]
    by (auto simp: names slot_key_def)
  ultimately show ?thesis by simp
qed

lemma first_occurrences_distinct: "distinct ks \<Longrightarrow> rev (remdups (rev ks)) = ks"
  by (simp add: distinct_remdups_id)

lemma get_stdout_keys:
  assumes "snd (get_stdout cl g w history b) = Inr od"
  shows "\<exists>keep. map fst od =
           rev (remdups (rev (map (\<lambda>(sess, win). slot_key sess win) (filter keep (all_windows cl b)))))"
proof -
  from assms obtain g1 w1 where
    "od = od_of_list
                 (map (\<lambda>(sess, win). (slot_key sess win,
                                        py_join [CHR 0x0A] (pane_lines b sess win history)))
                    (filter (\<lambda>(sess, win). selected g1 w1 sess win)
                       (all_windows cl b)))"
    unfolding get_stdout_result
    by (auto simp: Let_def split: sum.splits option.splits if_splits)
  then have "map fst od = rev (remdups (rev (map (\<lambda>(sess, win). slot_key sess win)
      (filter (\<lambda>(sess, win). selected g1 w1 sess win) (all_windows cl b)))))"
    by (simp add: keys_od_of_list comp_def case_prod_unfold)
  then show ?thesis by blast
qed

lemma get_stdout_all:
  "snd (get_stdout cl None None history b) =
     Inr (od_of_list (map (\<lambda>(sess, win). (slot_key sess win,
                                        py_join [CHR 0x0A] (pane_lines b sess win history)))
            (all_windows cl b)))"
  by (simp add: get_stdout_result selected_def case_prod_unfold)

lemma check_error_keys:
  "map fst (snd (check_error cl b)) =
     rev (remdups (rev (map (\<lambda>(sess, win). slot_key sess win)
       (filter (\<lambda>(sess, win). error_text (pane_error b sess win 100) \<noteq> []) (all_windows cl b)))))"
proof -
  have "map fst (concat (map (\<lambda>(sess, win). map (Pair (slot_key sess win))
                        (error_text (pane_error b sess win 100))) xs)) =
        map (\<lambda>(sess, win). slot_key sess win)
          (filter (\<lambda>(sess, win). error_text (pane_error b sess win 100) \<noteq> []) xs)" for xs
    by (induction xs) (auto simp: error_text_def split: option.splits)
  then show ?thesis
    by (simp add: check_error_result keys_od_of_list)
qed

text \<open>
  C10. The slots are the windows of the agent session, then those of the learner
  session, then those of the infras session, each session's windows in the backend's
  listing order. The keys of \<open>get_stdout()\<close> are the keys of the slots in this order,
  each at its first occurrence, which is the slot order itself when the keys are
  distinct; the keys of any successful \<open>get_stdout\<close> are those of a selection of the
  slots, in slot order; the keys of \<open>check_error()\<close> are those of the slots with an
  error, in slot order. The order depends on the sessions of the backend alone: another
  call, with another history depth, on a backend with the same sessions gives the same
  keys. For a cluster built from a cluster name on a backend whose window names are
  distinct within each of the three sessions, the keys of the slots are distinct.
\<close>

theorem inspection_order:
  "(let slots = map (Pair (agent_session cl)) (window_names b (agent_session cl))
                @ map (Pair (learner_session cl)) (window_names b (learner_session cl))
                @ map (Pair (infras_session cl)) (window_names b (infras_session cl));
        key = (\<lambda>(sess, win). slot_key sess win);
        first = (\<lambda>ks. rev (remdups (rev ks)))
    in (\<exists>od. snd (get_stdout cl None None history b) = Inr od
              \<and> map fst od = first (map key slots)
              \<and> (distinct (map key slots) \<longrightarrow> map fst od = map key slots)
              \<and> (\<forall>b' history'. sessions b' = sessions b \<longrightarrow>
                    (\<exists>od'. snd (get_stdout cl None None history' b') = Inr od'
                            \<and> map fst od' = map fst od)))
       \<and> (\<forall>g w od. snd (get_stdout cl g w history b) = Inr od \<longrightarrow>
             (\<exists>keep. map fst od = first (map key (filter keep slots))))
       \<and> map fst (snd (check_error cl b)) =
           first (map key (filter (\<lambda>(sess, win). error_text (pane_error b sess win 100) \<noteq> [])
                             slots))
       \<and> ((\<exists>name cfg ac lc ec. cl = make_cluster name cfg ac lc ec)
            \<and> distinct (window_names b (agent_session cl))
            \<and> distinct (window_names b (learner_session cl))
            \<and> distinct (window_names b (infras_session cl)) \<longrightarrow>
           distinct (map key slots)))"
proof -
  have same: "all_windows cl b' = all_windows cl b" if "sessions b' = sessions b" for b'
    using that by (simp add: all_windows_def window_names_def windows_of_def)
  have all: "\<exists>od'. snd (get_stdout cl None None history' b') = Inr od'
                            \<and> map fst od' = rev (remdups (rev (map (\<lambda>(sess, win). slot_key sess win)
                                 (all_windows cl b))))"
    if "sessions b' = sessions b" for b' history'
    by (simp add: get_stdout_all keys_od_of_list comp_def case_prod_unfold same [OF that])
  let ?keys = "map (\<lambda>(sess, win). slot_key sess win) (all_windows cl b)"
  obtain od where od: "snd (get_stdout cl None None history b) = Inr od"
    "map fst od = rev (remdups (rev ?keys))"
    using all [of b history] by blast
  have d: "distinct ?keys \<longrightarrow> map fst od = ?keys"
    using od(2) by (simp add: first_occurrences_distinct)
  have det: "\<forall>b' history'. sessions b' = sessions b \<longrightarrow>
      (\<exists>od'. snd (get_stdout cl None None history' b') = Inr od' \<and> map fst od' = map fst od)"
    using all od(2) by simp
  have first: "\<exists>od. snd (get_stdout cl None None history b) = Inr od
      \<and> map fst od = rev (remdups (rev ?keys))
      \<and> (distinct ?keys \<longrightarrow> map fst od = ?keys)
      \<and> (\<forall>b' history'. sessions b' = sessions b \<longrightarrow>
            (\<exists>od'. snd (get_stdout cl None None history' b') = Inr od'
                    \<and> map fst od' = map fst od))"
    using od d det by blast
  have filtered: "\<forall>g w od. snd (get_stdout cl g w history b) = Inr od \<longrightarrow>
      (\<exists>keep. map fst od = rev (remdups (rev (map (\<lambda>(sess, win). slot_key sess win)
                                  (filter keep (all_windows cl b))))))"
    using get_stdout_keys [of cl _ _ history b] by blast
  have dist: "(\<exists>name cfg ac lc ec. cl = make_cluster name cfg ac lc ec)
            \<and> distinct (window_names b (agent_session cl))
            \<and> distinct (window_names b (learner_session cl))
            \<and> distinct (window_names b (infras_session cl)) \<longrightarrow> distinct ?keys"
    using slot_keys_distinct [of cl _ _ _ _ _ b] by blast
  show ?thesis
    unfolding Let_def all_windows_slots [symmetric]
    using first filtered check_error_keys [of cl b] dist by blast
qed

theorem inspection_order_witness:
  "snd (get_stdout exp1 None None 0 mixed_backend) =
     Inr [(''agent-exp1:agent1'', []), (''agent-exp1:agent0'', []),
          (''learner-exp1:learner'', []), (''learner-exp1:evaluator'', []),
          (''infras-exp1:redis-replay'', []), (''infras-exp1:tensorboard'', [])]
   \<and> snd (get_stdout exp1 (Some ''learner'') None 0 mixed_backend) =
       Inr [(''learner-exp1:learner'', []), (''learner-exp1:evaluator'', [])]
   \<and> snd (check_error exp1 mixed_backend) =
       [(''agent-exp1:agent0'', ''Traceback''), (''learner-exp1:learner'', ''Traceback'')]"
  using inspection_order [of exp1 mixed_backend 0]
  by (simp add: eval_lits mixed_backend_def)

end
